theory Spec2Isabelle
  imports Complex_Main
begin

section \<open>Scalars and tensors\<close>

text \<open>
  The losses of \<^verbatim>\<open>src/loss.py\<close> compute on torch tensors of floating-point numbers.
  A scalar is modelled as a real number, or \<open>None\<close> when torch would produce a
  non-finite value (an infinity or a NaN): the logarithm of a non-positive number, a
  division by zero, the mean of no element, the unbiased variance of fewer than two
  elements. Every arithmetic operation the losses apply to such a value keeps it
  non-finite, so \<open>None\<close> is absorbing. Rounding and overflow are not modelled.
\<close>

type_synonym val = "real option"

definition vadd :: "val \<Rightarrow> val \<Rightarrow> val" where
  "vadd a b = (case a of None \<Rightarrow> None | Some x \<Rightarrow> (case b of None \<Rightarrow> None | Some y \<Rightarrow> Some (x + y)))"

definition vsub :: "val \<Rightarrow> val \<Rightarrow> val" where
  "vsub a b = (case a of None \<Rightarrow> None | Some x \<Rightarrow> (case b of None \<Rightarrow> None | Some y \<Rightarrow> Some (x - y)))"

definition vmul :: "val \<Rightarrow> val \<Rightarrow> val" where
  "vmul a b = (case a of None \<Rightarrow> None | Some x \<Rightarrow> (case b of None \<Rightarrow> None | Some y \<Rightarrow> Some (x * y)))"

definition vdiv :: "val \<Rightarrow> real \<Rightarrow> val" where
  "vdiv a n = (case a of None \<Rightarrow> None | Some x \<Rightarrow> (if n = 0 then None else Some (x / n)))"

definition torch_abs :: "val \<Rightarrow> val" where
  "torch_abs a = (case a of None \<Rightarrow> None | Some x \<Rightarrow> Some \<bar>x\<bar>)"

definition torch_log :: "real \<Rightarrow> val" where
  "torch_log x = (if 0 < x then Some (ln x) else None)"

definition torch_pow2 :: "val \<Rightarrow> val" where
  "torch_pow2 a = (case a of None \<Rightarrow> None | Some x \<Rightarrow> Some (x ^ 2))"

definition torch_sqrt :: "val \<Rightarrow> val" where
  "torch_sqrt a = (case a of None \<Rightarrow> None | Some x \<Rightarrow> (if x < 0 then None else Some (sqrt x)))"

text \<open>
  A 4-D tensor of shape \<open>(batch, channels, height, width)\<close> is a list of batch entries,
  each a list of channels, each a list of rows, each a list of elements. A boolean
  tensor (a mask) is represented by the numbers 1 and 0 that \<^verbatim>\<open>torch.mul\<close> and
  \<^verbatim>\<open>torch.sum\<close> read it as.
\<close>

type_synonym 'a tensor = "'a list list list list"

definition is_tensor4 :: "nat \<Rightarrow> nat \<Rightarrow> nat \<Rightarrow> nat \<Rightarrow> 'a tensor \<Rightarrow> bool" where
  "is_tensor4 B C H W t \<longleftrightarrow>
     length t = B \<and>
     (\<forall>b \<in> set t. length b = C \<and>
        (\<forall>c \<in> set b. length c = H \<and> (\<forall>r \<in> set c. length r = W)))"

definition tmap :: "('a \<Rightarrow> 'b) \<Rightarrow> 'a tensor \<Rightarrow> 'b tensor" where
  "tmap f t = map (map (map (map f))) t"

definition tmap2 :: "('a \<Rightarrow> 'b \<Rightarrow> 'c) \<Rightarrow> 'a tensor \<Rightarrow> 'b tensor \<Rightarrow> 'c tensor" where
  "tmap2 f s t = map2 (map2 (map2 (map2 f))) s t"

definition flatten :: "'a tensor \<Rightarrow> 'a list" where
  "flatten t = concat (concat (concat t))"

definition numel :: "'a tensor \<Rightarrow> nat" where
  "numel t = length (flatten t)"

primrec vsum :: "val list \<Rightarrow> val" where
  "vsum [] = Some 0"
| "vsum (x # xs) = vadd x (vsum xs)"

definition torch_sum :: "val tensor \<Rightarrow> val" where
  "torch_sum t = vsum (flatten t)"

definition mask_sum :: "real tensor \<Rightarrow> real" where
  "mask_sum m = sum_list (flatten m)"

subsection \<open>Slices\<close>

text \<open>
  \<^verbatim>\<open>xs[0:-2]\<close> keeps all but the last two entries (none when there are fewer than two),
  \<^verbatim>\<open>xs[2:]\<close> drops the first two, \<^verbatim>\<open>xs[::k]\<close> keeps the entries at the indices
  \<open>0, k, 2k, \<dots>\<close>.
\<close>

definition slice_0_m2 :: "'a list \<Rightarrow> 'a list" where
  "slice_0_m2 xs = take (length xs - 2) xs"

definition slice_2 :: "'a list \<Rightarrow> 'a list" where
  "slice_2 xs = drop 2 xs"

fun slice_step :: "nat \<Rightarrow> 'a list \<Rightarrow> 'a list" where
  "slice_step k [] = []"
| "slice_step k (x # xs) = x # slice_step k (drop (k - 1) xs)"

definition downscale :: "nat \<Rightarrow> 'a tensor \<Rightarrow> 'a tensor" where
  "downscale k t = map (map (\<lambda>img. map (slice_step k) (slice_step k img))) t"

section \<open>GradientLoss\<close>

record GradientLoss =
  gl_valid_mask :: bool
  gl_loss_weight :: real
  gl_max_depth :: "real option"
  gl_loss_name :: string
  gl_eps :: real

definition GradientLoss_init :: "bool \<Rightarrow> real \<Rightarrow> real option \<Rightarrow> string \<Rightarrow> GradientLoss" where
  "GradientLoss_init valid_mask loss_weight max_depth loss_name =
     \<lparr>gl_valid_mask = valid_mask, gl_loss_weight = loss_weight, gl_max_depth = max_depth,
      gl_loss_name = loss_name, gl_eps = 1 / 1000\<rparr>"

definition valid_elem :: "real option \<Rightarrow> real \<Rightarrow> bool" where
  "valid_elem max_depth x =
     (case max_depth of None \<Rightarrow> 0 < x | Some md \<Rightarrow> 0 < x \<and> x \<le> md)"

definition gl_mask :: "GradientLoss \<Rightarrow> real tensor \<Rightarrow> real tensor" where
  "gl_mask self target =
     (if gl_valid_mask self
      then tmap (\<lambda>x. if valid_elem (gl_max_depth self) x then 1 else 0) target
      else tmap (\<lambda>x. 1) target)"

definition gl_N :: "GradientLoss \<Rightarrow> real tensor \<Rightarrow> real tensor \<Rightarrow> real" where
  "gl_N self input target =
     (if gl_valid_mask self then mask_sum (gl_mask self target) else real (numel input))"

definition input_log :: "GradientLoss \<Rightarrow> real tensor \<Rightarrow> val tensor" where
  "input_log self input = tmap (\<lambda>x. torch_log (x + gl_eps self)) input"

definition target_log :: "GradientLoss \<Rightarrow> real tensor \<Rightarrow> val tensor" where
  "target_log self target = tmap (\<lambda>x. torch_log (x + gl_eps self)) target"

definition log_d_diff :: "GradientLoss \<Rightarrow> real tensor \<Rightarrow> real tensor \<Rightarrow> val tensor" where
  "log_d_diff self input target =
     tmap2 (\<lambda>d m. vmul d (Some m))
       (tmap2 vsub (input_log self input) (target_log self target))
       (gl_mask self target)"

text \<open>
  \<^verbatim>\<open>x[0:-2, :]\<close> and \<^verbatim>\<open>x[2:, :]\<close> slice the first axis of the 4-D tensor,
  \<^verbatim>\<open>x[:, 0:-2]\<close> and \<^verbatim>\<open>x[:, 2:]\<close> the second one.
\<close>

definition v_gradient :: "GradientLoss \<Rightarrow> real tensor \<Rightarrow> real tensor \<Rightarrow> val tensor" where
  "v_gradient self input target =
     (let d = log_d_diff self input target; mask = gl_mask self target;
          g = tmap torch_abs (tmap2 vsub (slice_0_m2 d) (slice_2 d));
          v_mask = tmap2 (*) (slice_0_m2 mask) (slice_2 mask)
      in tmap2 (\<lambda>x m. vmul x (Some m)) g v_mask)"

definition h_gradient :: "GradientLoss \<Rightarrow> real tensor \<Rightarrow> real tensor \<Rightarrow> val tensor" where
  "h_gradient self input target =
     (let d = log_d_diff self input target; mask = gl_mask self target;
          g = tmap torch_abs (tmap2 vsub (map slice_0_m2 d) (map slice_2 d));
          h_mask = tmap2 (*) (map slice_0_m2 mask) (map slice_2 mask)
      in tmap2 (\<lambda>x m. vmul x (Some m)) g h_mask)"

definition scale_loss :: "GradientLoss \<Rightarrow> real tensor \<Rightarrow> real tensor \<Rightarrow> val" where
  "scale_loss self input target =
     vdiv (vadd (torch_sum (h_gradient self input target))
                (torch_sum (v_gradient self input target)))
          (gl_N self input target)"

definition downscaled :: "'a tensor \<Rightarrow> 'a tensor list" where
  "downscaled t = [t] @ map (\<lambda>i. downscale (2 * i) t) [1..<4]"

definition gradientloss :: "GradientLoss \<Rightarrow> real tensor \<Rightarrow> real tensor \<Rightarrow> val" where
  "gradientloss self input target =
     fold (\<lambda>(i, t) gradient_loss. vadd gradient_loss (scale_loss self i t))
       (zip (downscaled input) (downscaled target)) (Some 0)"

definition GradientLoss_forward :: "GradientLoss \<Rightarrow> real tensor \<Rightarrow> real tensor \<Rightarrow> val" where
  "GradientLoss_forward self depth_pred depth_gt =
     vmul (Some (gl_loss_weight self)) (gradientloss self depth_pred depth_gt)"

text \<open>
  The gradients as the description of the loss words them, for comparison with
  \<open>v_gradient\<close> and \<open>h_gradient\<close>: differences of rows two apart along the height axis,
  and of columns two apart along the width axis.
\<close>

definition spec_v_gradient :: "GradientLoss \<Rightarrow> real tensor \<Rightarrow> real tensor \<Rightarrow> val tensor" where
  "spec_v_gradient self input target =
     (let d = log_d_diff self input target; mask = gl_mask self target;
          g = tmap torch_abs (tmap2 vsub (map (map slice_0_m2) d) (map (map slice_2) d));
          v_mask = tmap2 (*) (map (map slice_0_m2) mask) (map (map slice_2) mask)
      in tmap2 (\<lambda>x m. vmul x (Some m)) g v_mask)"

definition spec_h_gradient :: "GradientLoss \<Rightarrow> real tensor \<Rightarrow> real tensor \<Rightarrow> val tensor" where
  "spec_h_gradient self input target =
     (let d = log_d_diff self input target; mask = gl_mask self target;
          g = tmap torch_abs (tmap2 vsub (map (map (map slice_0_m2)) d) (map (map (map slice_2)) d));
          h_mask = tmap2 (*) (map (map (map slice_0_m2)) mask) (map (map (map slice_2)) mask)
      in tmap2 (\<lambda>x m. vmul x (Some m)) g h_mask)"

section \<open>SigLoss\<close>

record SigLoss =
  sl_valid_mask :: bool
  sl_loss_weight :: real
  sl_max_depth :: "real option"
  sl_loss_name :: string
  sl_eps :: real
  warm_up :: bool
  warm_iter :: int
  warm_up_counter :: int

definition SigLoss_init ::
  "bool \<Rightarrow> real \<Rightarrow> real option \<Rightarrow> bool \<Rightarrow> int \<Rightarrow> string \<Rightarrow> SigLoss" where
  "SigLoss_init valid_mask loss_weight max_depth warm_up' warm_iter' loss_name =
     \<lparr>sl_valid_mask = valid_mask, sl_loss_weight = loss_weight, sl_max_depth = max_depth,
      sl_loss_name = loss_name, sl_eps = 1 / 1000,
      warm_up = warm_up', warm_iter = warm_iter', warm_up_counter = 0\<rparr>"

text \<open>
  \<^verbatim>\<open>x[mask]\<close> with a boolean tensor of the shape of \<open>x\<close> is the flat list of the
  elements of \<open>x\<close> at the positions where the mask holds, in row-major order.
\<close>

definition index_mask :: "'a tensor \<Rightarrow> bool tensor \<Rightarrow> 'a list" where
  "index_mask t m = map fst (filter snd (zip (flatten t) (flatten m)))"

definition torch_mean :: "val list \<Rightarrow> val" where
  "torch_mean g = (if g = [] then None else vdiv (vsum g) (real (length g)))"

text \<open>\<^verbatim>\<open>torch.var\<close> is the unbiased sample variance: it divides by \<open>n - 1\<close>.\<close>

definition torch_var :: "val list \<Rightarrow> val" where
  "torch_var g =
     (if length g \<le> 1 then None
      else vdiv (vsum (map (\<lambda>x. torch_pow2 (vsub x (torch_mean g))) g)) (real (length g) - 1))"

definition sl_select :: "SigLoss \<Rightarrow> real tensor \<Rightarrow> real tensor \<Rightarrow> real list \<times> real list" where
  "sl_select self input target =
     (if sl_valid_mask self
      then (let valid_mask = tmap (valid_elem (sl_max_depth self)) target
            in (index_mask input valid_mask, index_mask target valid_mask))
      else (flatten input, flatten target))"

definition sl_g :: "SigLoss \<Rightarrow> real list \<Rightarrow> real list \<Rightarrow> val list" where
  "sl_g self input target =
     map2 (\<lambda>x y. vsub (torch_log (x + sl_eps self)) (torch_log (y + sl_eps self))) input target"

definition sigloss :: "SigLoss \<Rightarrow> real tensor \<Rightarrow> real tensor \<Rightarrow> val \<times> SigLoss" where
  "sigloss self input target =
     (case sl_select self input target of (input', target') \<Rightarrow>
        if warm_up self \<and> warm_up_counter self < warm_iter self
        then (let g = sl_g self input' target';
                  g' = vmul (Some (15 / 100)) (torch_pow2 (torch_mean g))
              in (torch_sqrt g', self\<lparr>warm_up_counter := warm_up_counter self + 1\<rparr>))
        else (let g = sl_g self input' target';
                  Dg = vadd (torch_var g) (vmul (Some (15 / 100)) (torch_pow2 (torch_mean g)))
              in (torch_sqrt Dg, self)))"

definition SigLoss_forward :: "SigLoss \<Rightarrow> real tensor \<Rightarrow> real tensor \<Rightarrow> val \<times> SigLoss" where
  "SigLoss_forward self depth_pred depth_gt =
     (case sigloss self depth_pred depth_gt of (r, self') \<Rightarrow>
        (vmul (Some (sl_loss_weight self)) r, self'))"

text \<open>A sequence of forward calls on one instance: the results, and the instance after them.\<close>

fun forward_calls :: "SigLoss \<Rightarrow> (real tensor \<times> real tensor) list \<Rightarrow> val list \<times> SigLoss" where
  "forward_calls self [] = ([], self)"
| "forward_calls self ((p, t) # cs) =
     (case SigLoss_forward self p t of (r, self') \<Rightarrow>
        (case forward_calls self' cs of (rs, self'') \<Rightarrow> (r # rs, self'')))"

section \<open>Cosine_MSE and the dispatcher\<close>

datatype error = NotImplementedError string | IndexError

text \<open>
  \<^verbatim>\<open>rearrange(x, "b c h w -> (b h w) c")\<close>: one row per (batch, height, width) position,
  holding the values of all channels at that position.
\<close>

definition rearrange_bchw :: "'a tensor \<Rightarrow> 'a list list" where
  "rearrange_bchw t = concat (map (\<lambda>bt. concat (map transpose (transpose bt))) t)"

text \<open>
  Modelled from the spec: \<^verbatim>\<open>torch.nn.MSELoss\<close> and \<^verbatim>\<open>torch.nn.CosineEmbeddingLoss\<close> are
  library code, not part of the repository. The spec describes them: the MSE loss is the
  mean squared elementwise difference of its two arguments, and the cosine embedding
  loss is, for a row labelled +1, one minus the cosine similarity of the two rows,
  averaged over the rows. Cosine_MSE labels every row +1; for the label -1 torch
  documents \<open>max 0 cos\<close>. The numerical guards inside the library are not modelled.
\<close>

definition torch_MSELoss :: "real list list \<Rightarrow> real list list \<Rightarrow> val" where
  "torch_MSELoss a b =
     torch_mean (map (\<lambda>(x, y). Some ((x - y) ^ 2)) (zip (concat a) (concat b)))"

definition cosine_similarity :: "real list \<Rightarrow> real list \<Rightarrow> val" where
  "cosine_similarity x y =
     vdiv (Some (sum_list (map2 (*) x y)))
          (sqrt (sum_list (map2 (*) x x)) * sqrt (sum_list (map2 (*) y y)))"

definition torch_CosineEmbeddingLoss :: "real list list \<Rightarrow> real list list \<Rightarrow> real list \<Rightarrow> val" where
  "torch_CosineEmbeddingLoss x1 x2 y =
     torch_mean (map (\<lambda>((a, b), l).
        if l = 1 then vsub (Some 1) (cosine_similarity a b)
        else (case cosine_similarity a b of None \<Rightarrow> None | Some c \<Rightarrow> Some (max 0 c)))
        (zip (zip x1 x2) y))"

record Cosine_MSE =
  mse_loss :: "real list list \<Rightarrow> real list list \<Rightarrow> val"
  cosine_loss :: "real list list \<Rightarrow> real list list \<Rightarrow> real list \<Rightarrow> val"

definition Cosine_MSE_init :: Cosine_MSE where
  "Cosine_MSE_init = \<lparr>mse_loss = torch_MSELoss, cosine_loss = torch_CosineEmbeddingLoss\<rparr>"

text \<open>
  \<^verbatim>\<open>(x - min_val) / (max_val - min_val + 1e-6)\<close>, where \<open>min_val\<close> and \<open>max_val\<close> hold one
  value per row and are broadcast along the row.
\<close>

definition min_max_normalize :: "real list list \<Rightarrow> real list \<Rightarrow> real list \<Rightarrow> real list list" where
  "min_max_normalize rows min_val max_val =
     map (\<lambda>(row, lo, hi). map (\<lambda>x. (x - lo) / (hi - lo + 1 / 10 ^ 6)) row)
       (zip rows (zip min_val max_val))"

text \<open>
  \<^verbatim>\<open>target[:, 0]\<close> and the reductions \<^verbatim>\<open>torch.min\<close> and \<^verbatim>\<open>torch.max\<close> along the
  channel axis raise an index error when that axis has size zero. (The nested lists show
  the number of channels only where there is a batch entry.)
\<close>

definition Cosine_MSE_forward :: "Cosine_MSE \<Rightarrow> real tensor \<Rightarrow> real tensor \<Rightarrow> error + val" where
  "Cosine_MSE_forward self pred target =
     (if \<exists>bt \<in> set target. bt = [] then Inl IndexError
      else
        (let pred' = rearrange_bchw pred; target' = rearrange_bchw target;
             gt = map (\<lambda>row. 1) target';
             min_val = map (\<lambda>row. Min (set row)) target';
             max_val = map (\<lambda>row. Max (set row)) target';
             pred_normalized = min_max_normalize pred' min_val max_val;
             target_normalized = min_max_normalize target' min_val max_val
         in Inr (vadd (cosine_loss self pred' target' gt)
                      (mse_loss self pred_normalized target_normalized))))"

record Loss =
  dim :: int
  loss_func :: "real tensor \<Rightarrow> real tensor \<Rightarrow> error + val"

definition Loss_init :: "string \<Rightarrow> int \<Rightarrow> error + Loss" where
  "Loss_init loss_type dim' =
     (if loss_type = ''cosine_mse''
      then Inr \<lparr>dim = dim', loss_func = Cosine_MSE_forward Cosine_MSE_init\<rparr>
      else Inl (NotImplementedError (''Loss type '' @ loss_type @ '' not implemented'')))"

definition Loss_call :: "Loss \<Rightarrow> real tensor \<Rightarrow> real tensor \<Rightarrow> error + (string \<rightharpoonup> val)" where
  "Loss_call self pred target =
     (case loss_func self pred target of
        Inl e \<Rightarrow> Inl e
      | Inr loss \<Rightarrow> Inr [''total'' \<mapsto> loss])"

section \<open>The warm-up counter of SigLoss\<close>

lemma SigLoss_forward_state:
  "snd (SigLoss_forward self p t) =
     (if warm_up self \<and> warm_up_counter self < warm_iter self
      then self\<lparr>warm_up_counter := warm_up_counter self + 1\<rparr> else self)"
  by (simp add: SigLoss_forward_def sigloss_def Let_def split: prod.splits)

lemma SigLoss_forward_result:
  "fst (SigLoss_forward self p t) =
     vmul (Some (sl_loss_weight self))
       (case sl_select self p t of (x, y) \<Rightarrow>
          if warm_up self \<and> warm_up_counter self < warm_iter self
          then torch_sqrt (vmul (Some (15 / 100)) (torch_pow2 (torch_mean (sl_g self x y))))
          else torch_sqrt (vadd (torch_var (sl_g self x y))
                 (vmul (Some (15 / 100)) (torch_pow2 (torch_mean (sl_g self x y))))))"
  by (auto simp add: SigLoss_forward_def sigloss_def Let_def split: prod.splits)

lemma forward_calls_snoc:
  "forward_calls self (cs @ [c]) =
     (case forward_calls self cs of (rs, s) \<Rightarrow>
        (rs @ [fst (SigLoss_forward s (fst c) (snd c))], snd (SigLoss_forward s (fst c) (snd c))))"
proof (induction self cs rule: forward_calls.induct)
  case (1 self)
  show ?case by (cases c) (auto split: prod.splits)
next
  case (2 self p t cs)
  then show ?case by (auto split: prod.splits)
qed

lemma forward_calls_length: "length (fst (forward_calls self cs)) = length cs"
  by (induction self cs rule: forward_calls.induct) (auto split: prod.splits)

lemma forward_calls_fixed:
  "sl_valid_mask (snd (forward_calls self cs)) = sl_valid_mask self \<and>
   sl_loss_weight (snd (forward_calls self cs)) = sl_loss_weight self \<and>
   sl_max_depth (snd (forward_calls self cs)) = sl_max_depth self \<and>
   sl_eps (snd (forward_calls self cs)) = sl_eps self \<and>
   warm_up (snd (forward_calls self cs)) = warm_up self \<and>
   warm_iter (snd (forward_calls self cs)) = warm_iter self"
proof (induction cs rule: rev_induct)
  case Nil
  show ?case by simp
next
  case (snoc c cs)
  then show ?case
    by (auto simp add: forward_calls_snoc SigLoss_forward_state split: prod.splits)
qed

lemma forward_calls_counter:
  "warm_up_counter (snd (forward_calls self cs)) =
     (if warm_up self
      then max (warm_up_counter self) (min (warm_iter self) (warm_up_counter self + int (length cs)))
      else warm_up_counter self)"
proof (induction cs rule: rev_induct)
  case Nil
  show ?case by simp
next
  case (snoc c cs)
  have fx: "warm_up (snd (forward_calls self cs)) = warm_up self"
    "warm_iter (snd (forward_calls self cs)) = warm_iter self"
    using forward_calls_fixed [of self cs] by simp_all
  obtain rs s where rs: "forward_calls self cs = (rs, s)" by (cases "forward_calls self cs")
  with snoc fx show ?case
    by (auto simp add: forward_calls_snoc SigLoss_forward_state)
qed

lemma forward_calls_nth:
  "k < length cs \<Longrightarrow>
   fst (forward_calls self cs) ! k =
     fst (SigLoss_forward (snd (forward_calls self (take k cs))) (fst (cs ! k)) (snd (cs ! k)))"
proof (induction cs rule: rev_induct)
  case Nil
  then show ?case by simp
next
  case (snoc c cs)
  obtain rs s where rs: "forward_calls self cs = (rs, s)" by (cases "forward_calls self cs")
  have len: "length rs = length cs" using forward_calls_length [of self cs] rs by simp
  show ?case
  proof (cases "k < length cs")
    case True
    with snoc rs len show ?thesis by (simp add: forward_calls_snoc nth_append)
  next
    case False
    with snoc.prems have "k = length cs" by simp
    with rs len show ?thesis by (simp add: forward_calls_snoc nth_append)
  qed
qed


text \<open>
  Claim C9. The warm-up counter of a SigLoss instance starts at 0. After any sequence of
  forward calls, on any inputs, it lies between 0 and \<open>warm_iter\<close> (a number of
  iterations, so not negative); it stays 0 when warm-up is disabled. A single forward call
  adds exactly 1 to it when warm-up is enabled and the counter is below \<open>warm_iter\<close>,
  and leaves it unchanged otherwise.
\<close>

theorem warm_up_counter_invariant:
  "0 \<le> N \<Longrightarrow>
   warm_up_counter (SigLoss_init vm lw md wu N nm) = 0 \<and>
   0 \<le> warm_up_counter (snd (forward_calls (SigLoss_init vm lw md wu N nm) cs)) \<and>
   warm_up_counter (snd (forward_calls (SigLoss_init vm lw md wu N nm) cs)) \<le> N \<and>
   (\<not> wu \<longrightarrow> warm_up_counter (snd (forward_calls (SigLoss_init vm lw md wu N nm) cs)) = 0) \<and>
   warm_up_counter (snd (SigLoss_forward self p t)) =
     (if warm_up self \<and> warm_up_counter self < warm_iter self
      then warm_up_counter self + 1 else warm_up_counter self)"
  by (simp add: forward_calls_counter SigLoss_forward_state) (simp add: SigLoss_init_def)

theorem warm_up_counter_invariant_witness:
  "(0::int) \<le> 1 \<and>
   warm_up_counter (snd (forward_calls (SigLoss_init True 1 None True 1 ''sigloss'')
     [([[[[1]]]], [[[[1]]]]), ([[[[1]]]], [[[[1]]]])])) \<le> 1"
  using warm_up_counter_invariant [of 1 True 1 None True "''sigloss''"
      "[([[[[1]]]], [[[[1]]]]), ([[[[1]]]], [[[[1]]]])]"]
  by simp

text \<open>
  Claim C2. On an instance built with warm-up enabled and \<open>warm_iter = N \<ge> 1\<close>, the
  call number \<open>k + 1\<close> of any sequence of forward calls returns
  \<open>loss_weight * sqrt (0.15 * mean g ^ 2)\<close> when \<open>k < N\<close> and
  \<open>loss_weight * sqrt (var g + 0.15 * mean g ^ 2)\<close> from then on, where \<open>g\<close> is
  \<open>log (pred + 0.001) - log (target + 0.001)\<close> over the selected elements. The
  counter before that call is \<open>min k N\<close>, and it does not decrease over the call.
\<close>

theorem sigloss_warm_up_schedule:
  "1 \<le> N \<Longrightarrow> k < length cs \<Longrightarrow>
   fst (forward_calls (SigLoss_init vm lw md True N nm) cs) ! k =
     (case cs ! k of (p, t) \<Rightarrow>
        case sl_select (SigLoss_init vm lw md True N nm) p t of (x, y) \<Rightarrow>
          let g = map2 (\<lambda>a b. vsub (torch_log (a + 1 / 1000)) (torch_log (b + 1 / 1000))) x y
          in if int k < N
             then vmul (Some lw) (torch_sqrt (vmul (Some (15 / 100)) (torch_pow2 (torch_mean g))))
             else vmul (Some lw) (torch_sqrt (vadd (torch_var g)
                    (vmul (Some (15 / 100)) (torch_pow2 (torch_mean g)))))) \<and>
   warm_up_counter (snd (forward_calls (SigLoss_init vm lw md True N nm) (take k cs))) = min (int k) N \<and>
   warm_up_counter (snd (forward_calls (SigLoss_init vm lw md True N nm) (take k cs)))
     \<le> warm_up_counter (snd (forward_calls (SigLoss_init vm lw md True N nm) (take (Suc k) cs)))"
proof -
  assume N: "1 \<le> N" and k: "k < length cs"
  let ?s0 = "SigLoss_init vm lw md True N nm"
  let ?sk = "snd (forward_calls ?s0 (take k cs))"
  have init: "warm_up ?s0" "warm_iter ?s0 = N" "warm_up_counter ?s0 = 0"
    "sl_eps ?s0 = 1 / 1000" "sl_loss_weight ?s0 = lw"
    by (simp_all add: SigLoss_init_def)
  have cnt: "warm_up_counter ?sk = min (int k) N"
    using N k init by (simp add: forward_calls_counter min_def max_def)
  have cnt': "warm_up_counter (snd (forward_calls ?s0 (take (Suc k) cs))) = min (int (Suc k)) N"
    using N k init by (simp add: forward_calls_counter min_def max_def)
  have fx: "warm_up ?sk" "warm_iter ?sk = N" "sl_eps ?sk = 1 / 1000" "sl_loss_weight ?sk = lw"
    "sl_valid_mask ?sk = sl_valid_mask ?s0" "sl_max_depth ?sk = sl_max_depth ?s0"
    using forward_calls_fixed [of ?s0 "take k cs"] init by simp_all
  have sel: "sl_select ?sk p t = sl_select ?s0 p t" for p t
    by (simp add: sl_select_def fx)
  have g: "sl_g ?sk x y = map2 (\<lambda>a b. vsub (torch_log (a + 1 / 1000)) (torch_log (b + 1 / 1000))) x y"
    for x y by (simp add: sl_g_def fx)
  have res: "fst (forward_calls ?s0 cs) ! k = fst (SigLoss_forward ?sk (fst (cs ! k)) (snd (cs ! k)))"
    using k by (rule forward_calls_nth)
  have "fst (forward_calls ?s0 cs) ! k =
     (case cs ! k of (p, t) \<Rightarrow>
        case sl_select ?s0 p t of (x, y) \<Rightarrow>
          let g = map2 (\<lambda>a b. vsub (torch_log (a + 1 / 1000)) (torch_log (b + 1 / 1000))) x y
          in if int k < N
             then vmul (Some lw) (torch_sqrt (vmul (Some (15 / 100)) (torch_pow2 (torch_mean g))))
             else vmul (Some lw) (torch_sqrt (vadd (torch_var g)
                    (vmul (Some (15 / 100)) (torch_pow2 (torch_mean g))))))"
    unfolding res SigLoss_forward_result
    by (cases "cs ! k") (auto simp add: fx cnt sel g Let_def split: prod.splits)
  moreover have "warm_up_counter ?sk \<le> warm_up_counter (snd (forward_calls ?s0 (take (Suc k) cs)))"
    unfolding cnt cnt' by simp
  ultimately show ?thesis using cnt by blast
qed

theorem sigloss_warm_up_schedule_witness:
  "(1::int) \<le> 1 \<and> (1::nat) < length [([[[[1::real]]]], [[[[1::real]]]]), ([[[[1]]]], [[[[1]]]])] \<and>
   warm_up_counter (snd (forward_calls (SigLoss_init True 1 None True 1 ''sigloss'')
     (take 1 [([[[[1]]]], [[[[1]]]]), ([[[[1]]]], [[[[1]]]])]))) = 1"
  using sigloss_warm_up_schedule [of 1 1 "[([[[[1]]]], [[[[1]]]]), ([[[[1]]]], [[[[1]]]])]"
      True 1 None "''sigloss''"]
  by simp

section \<open>Selection of the valid elements in SigLoss\<close>

lemma length_concat_const:
  "(\<forall>x \<in> set xs. length x = n) \<Longrightarrow> length (concat xs) = length xs * n"
  by (induction xs) auto

lemma is_tensor4_numel:
  assumes "is_tensor4 B C H W t"
  shows "length (flatten t) = B * C * H * W"
proof -
  have 0: "\<forall>b \<in> set t. length b = C" "length t = B"
    using assms by (auto simp add: is_tensor4_def)
  have 1: "length (concat t) = B * C"
    using length_concat_const [OF 0(1)] 0(2) by simp
  have 2: "\<forall>c \<in> set (concat t). length c = H"
    using assms by (auto simp add: is_tensor4_def)
  have 3: "length (concat (concat t)) = B * C * H"
    using length_concat_const [OF 2] 1 by simp
  have 4: "\<forall>r \<in> set (concat (concat t)). length r = W"
    using assms by (auto simp add: is_tensor4_def)
  show ?thesis
    using length_concat_const [OF 4] 3 by (simp add: flatten_def)
qed

lemma flatten_tmap: "flatten (tmap f t) = map f (flatten t)"
  by (simp add: flatten_def tmap_def map_concat)

lemma index_mask_zip:
  "length xs = length ys \<Longrightarrow>
   zip (map fst (filter snd (zip xs (map P ys)))) (map fst (filter snd (zip ys (map P ys)))) =
     filter (\<lambda>(a, b). P b) (zip xs ys)"
  by (induction xs ys rule: list_induct2) auto

lemma index_mask_self: "map fst (filter snd (zip ys (map P ys))) = filter P ys"
  by (induction ys) auto

lemma index_mask_length:
  "length xs = length ys \<Longrightarrow>
   length (map fst (filter snd (zip xs (map P ys)))) = length (filter P ys)"
  by (induction xs ys rule: list_induct2) auto

text \<open>
  Claim C5. For a prediction and a target of the same shape: with \<open>valid_mask\<close> disabled,
  SigLoss selects all elements of both, unfiltered. With \<open>valid_mask\<close> enabled, it
  selects exactly the pairs at the positions where the target is positive (and at most
  \<open>max_depth\<close> when that is configured), so no selected target is \<open>\<le> 0\<close>. The
  result is computed from the selected elements.
\<close>

theorem sigloss_masking:
  "is_tensor4 B C H W input \<Longrightarrow> is_tensor4 B C H W target \<Longrightarrow>
   (\<not> sl_valid_mask self \<longrightarrow> sl_select self input target = (flatten input, flatten target)) \<and>
   (sl_valid_mask self \<longrightarrow>
      (case sl_select self input target of (x, y) \<Rightarrow>
         zip x y = filter (\<lambda>(a, b). 0 < b \<and> (case sl_max_depth self of None \<Rightarrow> True | Some md \<Rightarrow> b \<le> md))
                     (zip (flatten input) (flatten target)) \<and>
         length x = length y \<and>
         y = filter (\<lambda>b. 0 < b \<and> (case sl_max_depth self of None \<Rightarrow> True | Some md \<Rightarrow> b \<le> md))
               (flatten target) \<and>
         (\<forall>b \<in> set y. \<not> b \<le> 0))) \<and>
   fst (sigloss self input target) =
     (case sl_select self input target of (x, y) \<Rightarrow>
        if warm_up self \<and> warm_up_counter self < warm_iter self
        then torch_sqrt (vmul (Some (15 / 100)) (torch_pow2 (torch_mean (sl_g self x y))))
        else torch_sqrt (vadd (torch_var (sl_g self x y))
               (vmul (Some (15 / 100)) (torch_pow2 (torch_mean (sl_g self x y))))))"
proof -
  assume i: "is_tensor4 B C H W input" and t: "is_tensor4 B C H W target"
  let ?P = "valid_elem (sl_max_depth self)"
  let ?Q = "\<lambda>b. 0 < b \<and> (case sl_max_depth self of None \<Rightarrow> True | Some md \<Rightarrow> b \<le> md)"
  have PQ: "?P = ?Q"
    by (auto simp add: valid_elem_def fun_eq_iff split: option.splits)
  have len: "length (flatten input) = length (flatten target)"
    using is_tensor4_numel [OF i] is_tensor4_numel [OF t] by simp
  have a: "\<not> sl_valid_mask self \<longrightarrow> sl_select self input target = (flatten input, flatten target)"
    by (simp add: sl_select_def)
  have sel: "sl_valid_mask self \<Longrightarrow> sl_select self input target =
      (map fst (filter snd (zip (flatten input) (map ?P (flatten target)))),
       map fst (filter snd (zip (flatten target) (map ?P (flatten target)))))"
    by (simp add: sl_select_def Let_def index_mask_def flatten_tmap)
  have b: "sl_valid_mask self \<longrightarrow>
      (case sl_select self input target of (x, y) \<Rightarrow>
         zip x y = filter (\<lambda>(a, b). ?Q b) (zip (flatten input) (flatten target)) \<and>
         length x = length y \<and> y = filter ?Q (flatten target) \<and> (\<forall>b \<in> set y. \<not> b \<le> 0))"
  proof
    assume vm: "sl_valid_mask self"
    show "case sl_select self input target of (x, y) \<Rightarrow>
         zip x y = filter (\<lambda>(a, b). ?Q b) (zip (flatten input) (flatten target)) \<and>
         length x = length y \<and> y = filter ?Q (flatten target) \<and> (\<forall>b \<in> set y. \<not> b \<le> 0)"
      unfolding sel [OF vm] prod.case index_mask_self
      using index_mask_zip [OF len, of ?P] index_mask_length [OF len, of ?P]
      unfolding index_mask_self PQ by auto
  qed
  have c: "fst (sigloss self input target) =
     (case sl_select self input target of (x, y) \<Rightarrow>
        if warm_up self \<and> warm_up_counter self < warm_iter self
        then torch_sqrt (vmul (Some (15 / 100)) (torch_pow2 (torch_mean (sl_g self x y))))
        else torch_sqrt (vadd (torch_var (sl_g self x y))
               (vmul (Some (15 / 100)) (torch_pow2 (torch_mean (sl_g self x y))))))"
    by (auto simp add: sigloss_def Let_def split: prod.splits)
  from a b c show ?thesis by blast
qed

theorem sigloss_masking_witness:
  "is_tensor4 1 1 2 2 [[[[1, 2], [3, 4::real]]]] \<and> is_tensor4 1 1 2 2 [[[[0, 5], [6, - 1::real]]]] \<and>
   sl_valid_mask (SigLoss_init True 1 None False 100 ''sigloss'') \<and>
   (case sl_select (SigLoss_init True 1 None False 100 ''sigloss'')
           [[[[1, 2], [3, 4]]]] [[[[0, 5], [6, - 1]]]] of (x, y) \<Rightarrow> y = [5, 6])"
proof -
  have 1: "is_tensor4 1 1 2 2 [[[[1, 2], [3, 4::real]]]]" by (simp add: is_tensor4_def)
  have 2: "is_tensor4 1 1 2 2 [[[[0, 5], [6, - 1::real]]]]" by (simp add: is_tensor4_def)
  have 3: "sl_valid_mask (SigLoss_init True 1 None False 100 ''sigloss'')"
    by (simp add: SigLoss_init_def)
  have 4: "sl_max_depth (SigLoss_init True 1 None False 100 ''sigloss'') = None"
    by (simp add: SigLoss_init_def)
  show ?thesis
    using sigloss_masking [OF 1 2, of "SigLoss_init True 1 None False 100 ''sigloss''"] 1 2 3
    by (auto simp add: 4 flatten_def)
qed

section \<open>The dispatcher\<close>

text \<open>
  Claim C4. Constructing \<open>Loss\<close> with an identifier other than \<^verbatim>\<open>"cosine_mse"\<close>
  fails with a not-implemented error; constructing it with \<^verbatim>\<open>"cosine_mse"\<close> succeeds.
  A call of the instance never fails with the not-implemented error, and on a target
  with at least one channel it returns a mapping with the single key \<^verbatim>\<open>"total"\<close>,
  bound to the scalar that Cosine_MSE produces.
\<close>

theorem Loss_dispatch:
  "(loss_type \<noteq> ''cosine_mse'' \<longrightarrow> (\<exists>msg. Loss_init loss_type d = Inl (NotImplementedError msg))) \<and>
   (\<exists>self. Loss_init ''cosine_mse'' d = Inr self \<and>
      (\<forall>pred target msg. Loss_call self pred target \<noteq> Inl (NotImplementedError msg)) \<and>
      (\<forall>pred target. (\<forall>bt \<in> set target. bt \<noteq> []) \<longrightarrow>
         (\<exists>loss. Cosine_MSE_forward Cosine_MSE_init pred target = Inr loss \<and>
                 Loss_call self pred target = Inr [''total'' \<mapsto> loss] \<and>
                 dom [''total'' \<mapsto> loss] = {''total''})))"
  by (auto simp add: Loss_init_def Loss_call_def Cosine_MSE_forward_def Let_def)

theorem Loss_dispatch_witness:
  "''sigloss'' \<noteq> ''cosine_mse'' \<and> (\<exists>msg. Loss_init ''sigloss'' 384 = Inl (NotImplementedError msg)) \<and>
   [] \<notin> set [[[[1::real]]]] \<and>
   (\<exists>self loss. Loss_init ''cosine_mse'' 384 = Inr self \<and>
      Loss_call self [[[[1]]]] [[[[1]]]] = Inr [''total'' \<mapsto> loss])"
proof -
  have n: "''sigloss'' \<noteq> ''cosine_mse''" by simp
  have h: "\<forall>bt \<in> set [[[[1::real]]]]. bt \<noteq> []" by simp
  note L = Loss_dispatch [of "''sigloss''" 384]
  have a: "\<exists>msg. Loss_init ''sigloss'' 384 = Inl (NotImplementedError msg)"
    using L [THEN conjunct1] n by (rule mp)
  from L [THEN conjunct2] obtain self where
    b: "Loss_init ''cosine_mse'' 384 = Inr self" and
    c: "\<forall>pred target. (\<forall>bt \<in> set target. bt \<noteq> []) \<longrightarrow>
         (\<exists>loss. Cosine_MSE_forward Cosine_MSE_init pred target = Inr loss \<and>
                 Loss_call self pred target = Inr [''total'' \<mapsto> loss] \<and>
                 dom [''total'' \<mapsto> loss] = {''total''})"
    by blast
  from c [THEN spec, THEN spec, THEN mp, OF h, of "[[[[1]]]]"] obtain loss where
    d: "Loss_call self [[[[1]]]] [[[[1]]]] = Inr [''total'' \<mapsto> loss]"
    by blast
  from b d have "\<exists>self loss. Loss_init ''cosine_mse'' 384 = Inr self \<and>
      Loss_call self [[[[1]]]] [[[[1]]]] = Inr [''total'' \<mapsto> loss]" by blast
  moreover have "[] \<notin> set [[[[1::real]]]]" by simp
  ultimately show ?thesis using n a by blast
qed

section \<open>Shapes and indices of tensors\<close>

lemma is_tensor4_nth_iff:
  "is_tensor4 B C H W t \<longleftrightarrow>
     length t = B \<and>
     (\<forall>b < B. length (t ! b) = C \<and>
        (\<forall>c < C. length (t ! b ! c) = H \<and> (\<forall>h < H. length (t ! b ! c ! h) = W)))"
  unfolding is_tensor4_def all_set_conv_all_nth by auto

lemma tmap2_tensor:
  "is_tensor4 B C H W s \<Longrightarrow> is_tensor4 B C H W t \<Longrightarrow> is_tensor4 B C H W (tmap2 f s t)"
  unfolding is_tensor4_nth_iff tmap2_def by simp

lemma tmap2_nth:
  "is_tensor4 B C H W s \<Longrightarrow> is_tensor4 B C H W t \<Longrightarrow> b < B \<Longrightarrow> c < C \<Longrightarrow> h < H \<Longrightarrow> w < W \<Longrightarrow>
   tmap2 f s t ! b ! c ! h ! w = f (s ! b ! c ! h ! w) (t ! b ! c ! h ! w)"
  unfolding is_tensor4_nth_iff tmap2_def by simp

lemma tmap_tensor:
  "is_tensor4 B C H W t \<Longrightarrow> is_tensor4 B C H W (tmap f t)"
  unfolding is_tensor4_nth_iff tmap_def by simp

lemma tmap_nth:
  "is_tensor4 B C H W t \<Longrightarrow> b < B \<Longrightarrow> c < C \<Longrightarrow> h < H \<Longrightarrow> w < W \<Longrightarrow>
   tmap f t ! b ! c ! h ! w = f (t ! b ! c ! h ! w)"
  unfolding is_tensor4_nth_iff tmap_def by simp

lemma slice_0_m2_tensor:
  "is_tensor4 B C H W t \<Longrightarrow> is_tensor4 (B - 2) C H W (slice_0_m2 t)"
  unfolding is_tensor4_nth_iff slice_0_m2_def by simp

lemma slice_2_tensor:
  "is_tensor4 B C H W t \<Longrightarrow> is_tensor4 (B - 2) C H W (slice_2 t)"
  unfolding is_tensor4_nth_iff slice_2_def by simp

lemma slice_0_m2_nth: "b < length t - 2 \<Longrightarrow> slice_0_m2 t ! b = t ! b"
  by (simp add: slice_0_m2_def)

lemma slice_2_nth: "b < length t - 2 \<Longrightarrow> slice_2 t ! b = t ! (b + 2)"
  by (simp add: slice_2_def add.commute)

lemma flatten_empty_entries: "(\<forall>b \<in> set t. b = []) \<Longrightarrow> flatten t = []"
  by (induction t) (auto simp add: flatten_def)

section \<open>The gradients of GradientLoss\<close>

lemma gl_mask_tensor: "is_tensor4 B C H W target \<Longrightarrow> is_tensor4 B C H W (gl_mask self target)"
  by (simp add: gl_mask_def tmap_tensor)

lemma log_d_diff_tensor:
  "is_tensor4 B C H W input \<Longrightarrow> is_tensor4 B C H W target \<Longrightarrow>
   is_tensor4 B C H W (log_d_diff self input target)"
  by (simp add: log_d_diff_def input_log_def target_log_def tmap2_tensor tmap_tensor gl_mask_tensor)

lemma v_gradient_tensor:
  assumes "is_tensor4 B C H W input" "is_tensor4 B C H W target"
  shows "is_tensor4 (B - 2) C H W (v_gradient self input target)"
proof -
  note d = log_d_diff_tensor [OF assms, of self] and m = gl_mask_tensor [OF assms(2), of self]
  show ?thesis
    unfolding v_gradient_def Let_def
    by (intro tmap2_tensor tmap_tensor slice_0_m2_tensor slice_2_tensor d m)
qed

lemma v_gradient_nth:
  assumes "is_tensor4 B C H W input" "is_tensor4 B C H W target"
    and "b + 2 < B" "c < C" "h < H" "w < W"
  shows "v_gradient self input target ! b ! c ! h ! w =
     vmul (torch_abs (vsub (log_d_diff self input target ! b ! c ! h ! w)
                           (log_d_diff self input target ! (b + 2) ! c ! h ! w)))
          (Some (gl_mask self target ! b ! c ! h ! w * gl_mask self target ! (b + 2) ! c ! h ! w))"
proof -
  note d = log_d_diff_tensor [OF assms(1,2), of self] and m = gl_mask_tensor [OF assms(2), of self]
  have b: "b < B - 2" using assms(3) by simp
  have ld: "length (log_d_diff self input target) = B" "length (gl_mask self target) = B"
    using d m by (simp_all add: is_tensor4_def)
  note s0 = slice_0_m2_tensor and s2 = slice_2_tensor
  have sub: "tmap2 vsub (slice_0_m2 (log_d_diff self input target)) (slice_2 (log_d_diff self input target))
       ! b ! c ! h ! w =
     vsub (log_d_diff self input target ! b ! c ! h ! w) (log_d_diff self input target ! (b + 2) ! c ! h ! w)"
    using tmap2_nth [OF s0 [OF d] s2 [OF d] b assms(4,5,6), of vsub] b ld
    by (simp add: slice_0_m2_nth slice_2_nth)
  have msk: "tmap2 (*) (slice_0_m2 (gl_mask self target)) (slice_2 (gl_mask self target)) ! b ! c ! h ! w =
     gl_mask self target ! b ! c ! h ! w * gl_mask self target ! (b + 2) ! c ! h ! w"
    using tmap2_nth [OF s0 [OF m] s2 [OF m] b assms(4,5,6), of "(*)"] b ld
    by (simp add: slice_0_m2_nth slice_2_nth)
  have g: "is_tensor4 (B - 2) C H W
     (tmap torch_abs (tmap2 vsub (slice_0_m2 (log_d_diff self input target))
        (slice_2 (log_d_diff self input target))))"
    by (intro tmap_tensor tmap2_tensor s0 s2 d)
  have vm: "is_tensor4 (B - 2) C H W
     (tmap2 (*) (slice_0_m2 (gl_mask self target)) (slice_2 (gl_mask self target)))"
    by (intro tmap2_tensor s0 s2 m)
  have t2: "is_tensor4 (B - 2) C H W
     (tmap2 vsub (slice_0_m2 (log_d_diff self input target)) (slice_2 (log_d_diff self input target)))"
    by (intro tmap2_tensor s0 s2 d)
  show ?thesis
    unfolding v_gradient_def Let_def
    by (simp add: tmap2_nth [OF g vm b assms(4,5,6)] tmap_nth [OF t2 b assms(4,5,6)] sub msk)
qed

lemma tmap2_entries_empty:
  "(\<forall>b \<in> set s. b = []) \<Longrightarrow> \<forall>b \<in> set (tmap2 f s t). b = []"
  by (auto simp add: tmap2_def dest!: set_zip_leftD)

lemma tmap_entries_empty:
  "(\<forall>b \<in> set s. b = []) \<Longrightarrow> \<forall>b \<in> set (tmap f s). b = []"
  by (auto simp add: tmap_def)

lemma slice_0_m2_entries_empty:
  "(\<forall>b \<in> set t. length b \<le> 2) \<Longrightarrow> \<forall>b \<in> set (map slice_0_m2 t). b = []"
  by (auto simp add: slice_0_m2_def)

lemma h_gradient_empty:
  assumes "is_tensor4 B C H W input" "is_tensor4 B C H W target" "C \<le> 2"
  shows "flatten (h_gradient self input target) = []"
proof -
  have "\<forall>b \<in> set (log_d_diff self input target). length b \<le> 2"
    using log_d_diff_tensor [OF assms(1,2), of self] assms(3) by (simp add: is_tensor4_def)
  then have "\<forall>b \<in> set (h_gradient self input target). b = []"
    unfolding h_gradient_def Let_def
    by (intro tmap2_entries_empty tmap_entries_empty slice_0_m2_entries_empty)
  then show ?thesis by (rule flatten_empty_entries)
qed

lemma v_gradient_empty:
  assumes "is_tensor4 B C H W input" "is_tensor4 B C H W target" "B \<le> 2"
  shows "v_gradient self input target = []"
  using v_gradient_tensor [OF assms(1,2), of self] assms(3) by (simp add: is_tensor4_def)

subsection \<open>Strided slices\<close>

lemma slice_step_length:
  "0 < k \<Longrightarrow> length (slice_step k xs) = (length xs + k - 1) div k"
proof (induction k xs rule: slice_step.induct)
  case (1 k)
  then show ?case by simp
next
  case (2 k x xs)
  show ?case
  proof (cases "k - 1 \<le> length xs")
    case True
    then have "length xs + k = (length xs - (k - 1) + k - 1) + k" using 2(2) by simp
    then have "(length xs + k) div k = (length xs - (k - 1) + k - 1) div k + 1"
      using 2(2) by (metis div_add_self2 less_numeral_extra(3))
    with 2 show ?thesis by simp
  next
    case False
    then have "length xs < k - 1" by simp
    with 2 show ?thesis by (simp add: div_eq_dividend_iff)
  qed
qed

lemma slice_step_nth:
  "0 < k \<Longrightarrow> i < length (slice_step k xs) \<Longrightarrow> slice_step k xs ! i = xs ! (k * i)"
proof (induction k xs arbitrary: i rule: slice_step.induct)
  case (1 k)
  then show ?case by simp
next
  case (2 k x xs)
  show ?case
  proof (cases i)
    case 0
    then show ?thesis by simp
  next
    case (Suc j)
    with 2(3) have j: "j < length (slice_step k (drop (k - 1) xs))" by simp
    from j have ne: "drop (k - 1) xs \<noteq> []" by auto
    then have le: "k - 1 \<le> length xs" by simp
    have "slice_step k (drop (k - 1) xs) ! j = drop (k - 1) xs ! (k * j)"
      using 2(1) [OF 2(2) j] .
    also have "\<dots> = xs ! (k - 1 + k * j)" using le by simp
    also have "\<dots> = (x # xs) ! (k * Suc j)" using 2(2) by (cases k) simp_all
    finally show ?thesis using Suc by simp
  qed
qed

lemma slice_step_set: "set (slice_step k xs) \<subseteq> set xs"
  by (induction k xs rule: slice_step.induct) (auto dest: in_set_dropD)


lemma slice_step_in: "x \<in> set (slice_step k xs) \<Longrightarrow> x \<in> set xs"
  using slice_step_set [of k xs] by auto

lemma downscale_tensor:
  assumes "is_tensor4 B C H W t" "0 < k"
  shows "is_tensor4 B C ((H + k - 1) div k) ((W + k - 1) div k) (downscale k t)"
proof -
  have "length r = (W + k - 1) div k"
    if "b \<in> set t" "img \<in> set b" "r \<in> set (map (slice_step k) (slice_step k img))" for b img r
  proof -
    from that(3) obtain r' where r': "r' \<in> set (slice_step k img)" "r = slice_step k r'" by auto
    from r'(1) have "r' \<in> set img" by (rule slice_step_in)
    with that(1,2) assms(1) have "length r' = W" by (auto simp add: is_tensor4_def)
    with r'(2) assms(2) show ?thesis by (simp add: slice_step_length)
  qed
  moreover have "length (map (slice_step k) (slice_step k img)) = (H + k - 1) div k"
    if "b \<in> set t" "img \<in> set b" for b img
    using that assms by (auto simp add: is_tensor4_def slice_step_length)
  ultimately show ?thesis
    using assms(1) unfolding is_tensor4_def downscale_def by auto
qed

lemma downscale_nth:
  assumes "is_tensor4 B C H W t" "0 < k" "b < B" "c < C"
    and "i < (H + k - 1) div k" "j < (W + k - 1) div k"
  shows "downscale k t ! b ! c ! i ! j = t ! b ! c ! (k * i) ! (k * j)"
proof -
  from assms(1,3,4) have len: "length t = B" "length (t ! b) = C" "length (t ! b ! c) = H"
    by (simp_all add: is_tensor4_nth_iff)
  have i: "i < length (slice_step k (t ! b ! c))"
    using assms(2,5) len by (simp add: slice_step_length)
  have "slice_step k (t ! b ! c) ! i \<in> set (slice_step k (t ! b ! c))"
    using i by simp
  then have "slice_step k (t ! b ! c) ! i \<in> set (t ! b ! c)"
    by (rule slice_step_in)
  moreover have "\<forall>r \<in> set (t ! b ! c). length r = W"
    using assms(1,3,4) len unfolding is_tensor4_def by (metis nth_mem)
  ultimately have "length (slice_step k (t ! b ! c) ! i) = W" by blast
  then have j: "j < length (slice_step k (slice_step k (t ! b ! c) ! i))"
    using assms(2,6) by (simp add: slice_step_length)
  have "downscale k t ! b ! c ! i ! j = slice_step k (slice_step k (t ! b ! c) ! i) ! j"
    using len assms(3,4) i by (simp add: downscale_def)
  also have "\<dots> = slice_step k (t ! b ! c) ! i ! (k * j)"
    using slice_step_nth [OF assms(2) j] .
  also have "\<dots> = t ! b ! c ! (k * i) ! (k * j)"
    using slice_step_nth [OF assms(2) i] by simp
  finally show ?thesis .
qed

lemma downscaled_eq: "downscaled t = [t, downscale 2 t, downscale 4 t, downscale 6 t]"
proof -
  have "[1..<4] = [1, 2, 3::nat]" by (simp add: upt_rec)
  then show ?thesis by (simp add: downscaled_def)
qed

lemma vadd_zero_left: "vadd (Some 0) x = x"
  by (cases x) (simp_all add: vadd_def)

lemma gradientloss_unfold:
  "gradientloss self input target =
     vadd (vadd (vadd (scale_loss self input target)
                      (scale_loss self (downscale 2 input) (downscale 2 target)))
                (scale_loss self (downscale 4 input) (downscale 4 target)))
          (scale_loss self (downscale 6 input) (downscale 6 target))"
  by (simp add: gradientloss_def downscaled_eq vadd_zero_left)

lemma mask_count: "sum_list (map (\<lambda>x. if P x then 1 else 0) xs) = real (length (filter P xs))"
  by (induction xs) auto

lemma gl_N_count:
  "gl_N self input target =
     (if gl_valid_mask self
      then real (length (filter (valid_elem (gl_max_depth self)) (flatten target)))
      else real (numel input))"
  by (simp add: gl_N_def mask_sum_def gl_mask_def flatten_tmap mask_count)

lemma scale_axes:
  assumes "is_tensor4 B C H W i" "is_tensor4 B C H W t"
  shows "is_tensor4 B C H W i \<and> is_tensor4 B C H W t \<and>
       (C \<le> 2 \<longrightarrow> flatten (h_gradient self i t) = [] \<and> torch_sum (h_gradient self i t) = Some 0) \<and>
       is_tensor4 (B - 2) C H W (v_gradient self i t) \<and>
       (\<forall>b c h w. b + 2 < B \<and> c < C \<and> h < H \<and> w < W \<longrightarrow>
          v_gradient self i t ! b ! c ! h ! w =
            vmul (torch_abs (vsub (log_d_diff self i t ! b ! c ! h ! w)
                                  (log_d_diff self i t ! (b + 2) ! c ! h ! w)))
                 (Some (gl_mask self t ! b ! c ! h ! w * gl_mask self t ! (b + 2) ! c ! h ! w)))"
  using assms h_gradient_empty [OF assms, of self] v_gradient_tensor [OF assms, of self]
    v_gradient_nth [OF assms, of _ _ _ _ self]
  by (simp add: torch_sum_def)

text \<open>
  Claim C10. At each of the four scales of the gradient loss, for tensors of shape
  \<open>(B, C, H', W')\<close>: when there are at most two channels, the slices
  \<^verbatim>\<open>[:, 0:-2]\<close> and \<^verbatim>\<open>[:, 2:]\<close> are empty, so the horizontal gradient has no element
  and its sum is 0; the vertical gradient has shape \<open>(B - 2, C, H', W')\<close> and its entry
  at \<open>(b, c, h, w)\<close> is the absolute difference of the log-differences of the batch
  entries \<open>b\<close> and \<open>b + 2\<close> at \<open>(c, h, w)\<close>, times the product of their masks.
\<close>

theorem gradient_axes:
  "is_tensor4 B C H W input \<Longrightarrow> is_tensor4 B C H W target \<Longrightarrow>
   \<forall>(i, t) \<in> set (zip (downscaled input) (downscaled target)).
     \<exists>H' W'. is_tensor4 B C H' W' i \<and> is_tensor4 B C H' W' t \<and>
       (C \<le> 2 \<longrightarrow> flatten (h_gradient self i t) = [] \<and> torch_sum (h_gradient self i t) = Some 0) \<and>
       is_tensor4 (B - 2) C H' W' (v_gradient self i t) \<and>
       (\<forall>b c h w. b + 2 < B \<and> c < C \<and> h < H' \<and> w < W' \<longrightarrow>
          v_gradient self i t ! b ! c ! h ! w =
            vmul (torch_abs (vsub (log_d_diff self i t ! b ! c ! h ! w)
                                  (log_d_diff self i t ! (b + 2) ! c ! h ! w)))
                 (Some (gl_mask self t ! b ! c ! h ! w * gl_mask self t ! (b + 2) ! c ! h ! w)))"
proof -
  assume i: "is_tensor4 B C H W input" and t: "is_tensor4 B C H W target"
  let ?Q = "\<lambda>i t. \<exists>H' W'. is_tensor4 B C H' W' i \<and> is_tensor4 B C H' W' t \<and>
       (C \<le> 2 \<longrightarrow> flatten (h_gradient self i t) = [] \<and> torch_sum (h_gradient self i t) = Some 0) \<and>
       is_tensor4 (B - 2) C H' W' (v_gradient self i t) \<and>
       (\<forall>b c h w. b + 2 < B \<and> c < C \<and> h < H' \<and> w < W' \<longrightarrow>
          v_gradient self i t ! b ! c ! h ! w =
            vmul (torch_abs (vsub (log_d_diff self i t ! b ! c ! h ! w)
                                  (log_d_diff self i t ! (b + 2) ! c ! h ! w)))
                 (Some (gl_mask self t ! b ! c ! h ! w * gl_mask self t ! (b + 2) ! c ! h ! w)))"
  have q: "?Q x y" if "is_tensor4 B C H' W' x" "is_tensor4 B C H' W' y" for x y H' W'
    using scale_axes [OF that, of self] by blast
  have 0: "?Q input target" using i t by (rule q)
  have k: "?Q (downscale k input) (downscale k target)" if "0 < k" for k
    using downscale_tensor [OF i that] downscale_tensor [OF t that] by (rule q)
  have "?Q (downscale 2 input) (downscale 2 target)" "?Q (downscale 4 input) (downscale 4 target)"
    "?Q (downscale 6 input) (downscale 6 target)"
    by (rule k, simp)+
  with 0 show ?thesis by (simp add: downscaled_eq)
qed

theorem gradient_axes_witness:
  "is_tensor4 3 1 1 1 [[[[2::real]]], [[[3]]], [[[5]]]] \<and>
   is_tensor4 3 1 1 1 [[[[1::real]]], [[[1]]], [[[1]]]] \<and> (1::nat) \<le> 2 \<and>
   flatten (h_gradient (GradientLoss_init True 1 None ''loss_grad'') [[[[2]]], [[[3]]], [[[5]]]] [[[[1]]], [[[1]]], [[[1]]]]) = [] \<and>
   v_gradient (GradientLoss_init True 1 None ''loss_grad'') [[[[2]]], [[[3]]], [[[5]]]] [[[[1]]], [[[1]]], [[[1]]]] ! 0 ! 0 ! 0 ! 0 =
     vmul (torch_abs (vsub
        (log_d_diff (GradientLoss_init True 1 None ''loss_grad'') [[[[2]]], [[[3]]], [[[5]]]] [[[[1]]], [[[1]]], [[[1]]]] ! 0 ! 0 ! 0 ! 0)
        (log_d_diff (GradientLoss_init True 1 None ''loss_grad'') [[[[2]]], [[[3]]], [[[5]]]] [[[[1]]], [[[1]]], [[[1]]]] ! 2 ! 0 ! 0 ! 0)))
       (Some (gl_mask (GradientLoss_init True 1 None ''loss_grad'') [[[[1]]], [[[1]]], [[[1]]]] ! 0 ! 0 ! 0 ! 0 *
              gl_mask (GradientLoss_init True 1 None ''loss_grad'') [[[[1]]], [[[1]]], [[[1]]]] ! 2 ! 0 ! 0 ! 0))"
proof -
  let ?P = "[[[[2::real]]], [[[3]]], [[[5]]]]" and ?T = "[[[[1::real]]], [[[1]]], [[[1]]]]"
  have p: "is_tensor4 3 1 1 1 ?P" by (simp add: is_tensor4_def)
  have t: "is_tensor4 3 1 1 1 ?T" by (simp add: is_tensor4_def)
  have m: "(?P, ?T) \<in> set (zip (downscaled ?P) (downscaled ?T))"
    by (simp add: downscaled_def)
  from gradient_axes [OF p t, of "GradientLoss_init True 1 None ''loss_grad''"] m obtain H' W' where
    s: "is_tensor4 3 1 H' W' ?P" and
    h: "(1::nat) \<le> 2 \<longrightarrow> flatten (h_gradient (GradientLoss_init True 1 None ''loss_grad'') ?P ?T) = []" and
    v: "\<forall>b c h w. b + 2 < 3 \<and> c < 1 \<and> h < H' \<and> w < W' \<longrightarrow>
          v_gradient (GradientLoss_init True 1 None ''loss_grad'') ?P ?T ! b ! c ! h ! w =
            vmul (torch_abs (vsub (log_d_diff (GradientLoss_init True 1 None ''loss_grad'') ?P ?T ! b ! c ! h ! w)
                                  (log_d_diff (GradientLoss_init True 1 None ''loss_grad'') ?P ?T ! (b + 2) ! c ! h ! w)))
                 (Some (gl_mask (GradientLoss_init True 1 None ''loss_grad'') ?T ! b ! c ! h ! w * gl_mask (GradientLoss_init True 1 None ''loss_grad'') ?T ! (b + 2) ! c ! h ! w))"
    by fastforce
  from s have "H' = 1" "W' = 1" by (simp_all add: is_tensor4_def)
  with v have "v_gradient (GradientLoss_init True 1 None ''loss_grad'') ?P ?T ! 0 ! 0 ! 0 ! 0 =
            vmul (torch_abs (vsub (log_d_diff (GradientLoss_init True 1 None ''loss_grad'') ?P ?T ! 0 ! 0 ! 0 ! 0)
                                  (log_d_diff (GradientLoss_init True 1 None ''loss_grad'') ?P ?T ! (0 + 2) ! 0 ! 0 ! 0)))
                 (Some (gl_mask (GradientLoss_init True 1 None ''loss_grad'') ?T ! 0 ! 0 ! 0 ! 0 * gl_mask (GradientLoss_init True 1 None ''loss_grad'') ?T ! (0 + 2) ! 0 ! 0 ! 0))"
    by (intro v [rule_format]) simp
  with p t h show ?thesis by (simp add: numeral_2_eq_2)
qed

text \<open>
  Claim C3. The gradient loss is evaluated on four arrays: the original one and its
  subsamples with the steps 2, 4 and 6 along height and width, the subsample with step
  \<open>k\<close> holding at \<open>(b, c, i, j)\<close> the element \<open>(b, c, k * i, k * j)\<close>. Each scale adds
  \<open>(sum h_gradient + sum v_gradient) / N\<close>, where \<open>N\<close> is the number of valid target
  elements when \<open>valid_mask\<close> is enabled and the number of elements otherwise, and the
  result is \<open>loss_weight\<close> times the sum over the four scales.
\<close>

theorem gradientloss_scales:
  "is_tensor4 B C H W input \<Longrightarrow> is_tensor4 B C H W target \<Longrightarrow>
   downscaled input = [input, downscale 2 input, downscale 4 input, downscale 6 input] \<and>
   downscaled target = [target, downscale 2 target, downscale 4 target, downscale 6 target] \<and>
   (\<forall>x \<in> {input, target}. \<forall>k \<in> {2, 4, 6}.
      is_tensor4 B C ((H + k - 1) div k) ((W + k - 1) div k) (downscale k x) \<and>
      (\<forall>b c i j. b < B \<and> c < C \<and> i < (H + k - 1) div k \<and> j < (W + k - 1) div k \<longrightarrow>
         downscale k x ! b ! c ! i ! j = x ! b ! c ! (k * i) ! (k * j))) \<and>
   (let N = (\<lambda>i t. if gl_valid_mask self
                     then real (length (filter (valid_elem (gl_max_depth self)) (flatten t)))
                     else real (numel i));
        S = (\<lambda>i t. vdiv (vadd (torch_sum (h_gradient self i t)) (torch_sum (v_gradient self i t))) (N i t))
    in GradientLoss_forward self input target =
         vmul (Some (gl_loss_weight self))
           (vadd (vadd (vadd (S input target) (S (downscale 2 input) (downscale 2 target)))
                       (S (downscale 4 input) (downscale 4 target)))
                 (S (downscale 6 input) (downscale 6 target)))) \<and>
   numel input = B * C * H * W \<and>
   (\<forall>k \<in> {2, 4, 6}. numel (downscale k input) = B * C * ((H + k - 1) div k) * ((W + k - 1) div k))"
proof -
  assume i: "is_tensor4 B C H W input" and t: "is_tensor4 B C H W target"
  have idx: "is_tensor4 B C ((H + k - 1) div k) ((W + k - 1) div k) (downscale k x) \<and>
      (\<forall>b c i j. b < B \<and> c < C \<and> i < (H + k - 1) div k \<and> j < (W + k - 1) div k \<longrightarrow>
         downscale k x ! b ! c ! i ! j = x ! b ! c ! (k * i) ! (k * j))"
    if "is_tensor4 B C H W x" "0 < k" for x k
    using downscale_tensor [OF that] downscale_nth [OF that] by blast
  have a: "\<forall>x \<in> {input, target}. \<forall>k \<in> {2, 4, 6}.
      is_tensor4 B C ((H + k - 1) div k) ((W + k - 1) div k) (downscale k x) \<and>
      (\<forall>b c i j. b < B \<and> c < C \<and> i < (H + k - 1) div k \<and> j < (W + k - 1) div k \<longrightarrow>
         downscale k x ! b ! c ! i ! j = x ! b ! c ! (k * i) ! (k * j))"
    using idx [OF i, of 2] idx [OF i, of 4] idx [OF i, of 6]
      idx [OF t, of 2] idx [OF t, of 4] idx [OF t, of 6]
    by simp
  have b: "GradientLoss_forward self input target =
      vmul (Some (gl_loss_weight self))
        (vadd (vadd (vadd (scale_loss self input target)
                      (scale_loss self (downscale 2 input) (downscale 2 target)))
                (scale_loss self (downscale 4 input) (downscale 4 target)))
          (scale_loss self (downscale 6 input) (downscale 6 target)))"
    by (simp add: GradientLoss_forward_def gradientloss_unfold)
  have c: "numel input = B * C * H * W"
    using is_tensor4_numel [OF i] by (simp add: numel_def)
  have d: "\<forall>k \<in> {2, 4, 6}. numel (downscale k input) = B * C * ((H + k - 1) div k) * ((W + k - 1) div k)"
    using is_tensor4_numel [OF downscale_tensor [OF i, of 2]]
      is_tensor4_numel [OF downscale_tensor [OF i, of 4]]
      is_tensor4_numel [OF downscale_tensor [OF i, of 6]]
    by (simp add: numel_def)
  show ?thesis
    unfolding Let_def
    using a c d by (simp only: downscaled_eq b scale_loss_def gl_N_count simp_thms)
qed

theorem gradientloss_scales_witness:
  "is_tensor4 1 1 3 3 [[[[1, 2, 3], [4, 5, 6], [7, 8, 9::real]]]] \<and>
   is_tensor4 1 1 3 3 [[[[1, 1, 1], [1, 1, 1], [1, 1, 1::real]]]] \<and>
   downscale 2 [[[[1, 2, 3], [4, 5, 6], [7, 8, 9::real]]]] ! 0 ! 0 ! 1 ! 1 = 9 \<and>
   numel (downscale 2 [[[[1, 2, 3], [4, 5, 6], [7, 8, 9::real]]]]) = 4"
proof -
  let ?P = "[[[[1, 2, 3], [4, 5, 6], [7, 8, 9::real]]]]" and ?T = "[[[[1, 1, 1], [1, 1, 1], [1, 1, 1::real]]]]"
  have p: "is_tensor4 1 1 3 3 ?P" by (simp add: is_tensor4_def)
  have t: "is_tensor4 1 1 3 3 ?T" by (simp add: is_tensor4_def)
  note g = gradientloss_scales [OF p t, of self]
  note idx = g [THEN conjunct2, THEN conjunct2, THEN conjunct1]
  note num = g [THEN conjunct2, THEN conjunct2, THEN conjunct2, THEN conjunct2, THEN conjunct2]
  have "?P \<in> {?P, ?T}" by simp
  from idx [THEN bspec, OF this] have "\<forall>k \<in> {2, 4, 6}.
      is_tensor4 1 1 ((3 + k - 1) div k) ((3 + k - 1) div k) (downscale k ?P) \<and>
      (\<forall>b c i j. b < 1 \<and> c < 1 \<and> i < (3 + k - 1) div k \<and> j < (3 + k - 1) div k \<longrightarrow>
         downscale k ?P ! b ! c ! i ! j = ?P ! b ! c ! (k * i) ! (k * j))" .
  note kk = this
  have k: "(2::nat) \<in> {2, 4, 6}" by simp
  from kk [THEN bspec, OF k] have "\<forall>b c i j. b < 1 \<and> c < 1 \<and> i < (3 + 2 - 1) div 2 \<and> j < (3 + 2 - 1) div (2::nat) \<longrightarrow>
         downscale 2 ?P ! b ! c ! i ! j = ?P ! b ! c ! (2 * i) ! (2 * j)"
    by (rule conjunct2)
  from this [THEN spec, THEN spec, THEN spec, THEN spec, of 0 0 1 1]
  have a: "downscale 2 ?P ! 0 ! 0 ! 1 ! 1 = 9" by simp
  from num [THEN bspec, OF k] have b: "numel (downscale 2 ?P) = 4" by simp
  from p t a b show ?thesis by (intro conjI)
qed

section \<open>Elements of tensors and the arguments of the logarithms\<close>

lemma in_flatten:
  "x \<in> set (flatten t) \<longleftrightarrow> (\<exists>b \<in> set t. \<exists>c \<in> set b. \<exists>r \<in> set c. x \<in> set r)"
  by (auto simp add: flatten_def)

lemma map2_in: "z \<in> set (map2 f xs ys) \<Longrightarrow> \<exists>x \<in> set xs. \<exists>y \<in> set ys. z = f x y"
  by (auto dest: set_zip_leftD set_zip_rightD)

lemma tmap2_elems:
  assumes "z \<in> set (flatten (tmap2 f s t))"
  shows "\<exists>x \<in> set (flatten s). \<exists>y \<in> set (flatten t). z = f x y"
proof -
  from assms obtain b c r where b: "b \<in> set (tmap2 f s t)" and c: "c \<in> set b"
    and r: "r \<in> set c" and z: "z \<in> set r"
    unfolding in_flatten by blast
  from b obtain sb tb where sb: "sb \<in> set s" "tb \<in> set t" "b = map2 (map2 (map2 f)) sb tb"
    unfolding tmap2_def by (blast dest: map2_in)
  from c sb(3) obtain sc tc where sc: "sc \<in> set sb" "tc \<in> set tb" "c = map2 (map2 f) sc tc"
    by (blast dest: map2_in)
  from r sc(3) obtain sr tr where sr: "sr \<in> set sc" "tr \<in> set tc" "r = map2 f sr tr"
    by (blast dest: map2_in)
  from z sr(3) obtain x y where xy: "x \<in> set sr" "y \<in> set tr" "z = f x y"
    by (blast dest: map2_in)
  have "x \<in> set (flatten s)" unfolding in_flatten using sb(1) sc(1) sr(1) xy(1) by blast
  moreover have "y \<in> set (flatten t)" unfolding in_flatten using sb(2) sc(2) sr(2) xy(2) by blast
  ultimately show ?thesis using xy(3) by blast
qed

lemma slice_0_m2_elems: "x \<in> set (flatten (slice_0_m2 t)) \<Longrightarrow> x \<in> set (flatten t)"
  unfolding in_flatten slice_0_m2_def by (blast dest: in_set_takeD)

lemma slice_2_elems: "x \<in> set (flatten (slice_2 t)) \<Longrightarrow> x \<in> set (flatten t)"
  unfolding in_flatten slice_2_def by (blast dest: in_set_dropD)

lemma downscale_elems:
  assumes "x \<in> set (flatten (downscale k t))"
  shows "x \<in> set (flatten t)"
proof -
  from assms obtain b c r where b: "b \<in> set (downscale k t)" and c: "c \<in> set b"
    and r: "r \<in> set c" and x: "x \<in> set r"
    unfolding in_flatten by blast
  from b obtain b' where b': "b' \<in> set t"
    "b = map (\<lambda>img. map (slice_step k) (slice_step k img)) b'"
    unfolding downscale_def by auto
  from c b'(2) obtain img where img: "img \<in> set b'" "c = map (slice_step k) (slice_step k img)"
    by auto
  from r img(2) obtain r' where r': "r' \<in> set (slice_step k img)" "r = slice_step k r'"
    by auto
  from r'(1) have "r' \<in> set img" by (rule slice_step_in)
  moreover from x r'(2) have "x \<in> set r'" by (simp add: slice_step_in)
  ultimately show ?thesis unfolding in_flatten using b'(1) img(1) by blast
qed

lemma tmap_cong_elems:
  "(\<And>x. x \<in> set (flatten t) \<Longrightarrow> f x = g x) \<Longrightarrow> tmap f t = tmap g t"
  unfolding tmap_def in_flatten by (auto intro!: map_cong)

lemma index_mask_elems: "x \<in> set (index_mask t m) \<Longrightarrow> x \<in> set (flatten t)"
  by (auto simp add: index_mask_def dest: set_zip_leftD)

lemma sl_select_elems:
  "sl_select self input target = (x, y) \<Longrightarrow>
   set x \<subseteq> set (flatten input) \<and> set y \<subseteq> set (flatten target)"
  by (auto simp add: sl_select_def Let_def dest: index_mask_elems split: if_splits)

lemma torch_log_pos: "0 < x \<Longrightarrow> torch_log x = Some (ln x)"
  by (simp add: torch_log_def)

lemma sl_g_defined:
  assumes "\<forall>a \<in> set x. 0 < a + sl_eps self" "\<forall>b \<in> set y. 0 < b + sl_eps self"
  shows "sl_g self x y = map2 (\<lambda>a b. Some (ln (a + sl_eps self) - ln (b + sl_eps self))) x y"
proof -
  have "vsub (torch_log (a + sl_eps self)) (torch_log (b + sl_eps self)) =
      Some (ln (a + sl_eps self) - ln (b + sl_eps self))"
    if "(a, b) \<in> set (zip x y)" for a b
  proof -
    from that have "a \<in> set x" "b \<in> set y"
      by (auto dest: set_zip_leftD set_zip_rightD)
    with assms have "0 < a + sl_eps self" "0 < b + sl_eps self" by auto
    then show ?thesis by (simp add: torch_log_pos vsub_def)
  qed
  then show ?thesis unfolding sl_g_def by (auto intro!: map_cong)
qed

lemma log_tensor_defined:
  assumes "\<forall>x \<in> set (flatten q). 0 \<le> x"
  shows "(\<forall>x \<in> set (flatten q). 0 < x + 1 / 1000) \<and>
     tmap (\<lambda>x. torch_log (x + 1 / 1000)) q = tmap (\<lambda>x. Some (ln (x + 1 / 1000))) q"
proof -
  have pos: "0 < x + 1 / 1000" if "x \<in> set (flatten q)" for x :: real
    using that assms by (simp add: add_nonneg_pos)
  have "tmap (\<lambda>x. torch_log (x + 1 / 1000)) q = tmap (\<lambda>x. Some (ln (x + 1 / 1000))) q"
    by (rule tmap_cong_elems) (simp add: torch_log_pos pos)
  with pos show ?thesis by blast
qed

text \<open>
  Claim C8. Both losses are constructed with \<open>eps = 0.001\<close>, and every logarithm they
  evaluate is applied to an element plus that \<open>eps\<close>. When no element of the prediction
  and of the target is negative, every such argument is positive: at each of the four
  scales of GradientLoss the two tensors of logarithms are defined everywhere, and so
  are the logarithms of SigLoss on the selected elements.
\<close>

theorem log_arguments_positive:
  "\<forall>x \<in> set (flatten input). 0 \<le> x \<Longrightarrow> \<forall>x \<in> set (flatten target). 0 \<le> x \<Longrightarrow>
   gl_eps (GradientLoss_init vm lw md nm) = 1 / 1000 \<and>
   (\<forall>(i, t) \<in> set (zip (downscaled input) (downscaled target)).
      (\<forall>x \<in> set (flatten i). 0 < x + 1 / 1000) \<and> (\<forall>x \<in> set (flatten t). 0 < x + 1 / 1000) \<and>
      input_log (GradientLoss_init vm lw md nm) i = tmap (\<lambda>x. Some (ln (x + 1 / 1000))) i \<and>
      target_log (GradientLoss_init vm lw md nm) t = tmap (\<lambda>x. Some (ln (x + 1 / 1000))) t) \<and>
   sl_eps (snd (forward_calls (SigLoss_init vm' lw' md' wu N nm') cs)) = 1 / 1000 \<and>
   (case sl_select (snd (forward_calls (SigLoss_init vm' lw' md' wu N nm') cs)) input target of
      (x, y) \<Rightarrow>
        (\<forall>a \<in> set x. 0 < a + 1 / 1000) \<and> (\<forall>b \<in> set y. 0 < b + 1 / 1000) \<and>
        sl_g (snd (forward_calls (SigLoss_init vm' lw' md' wu N nm') cs)) x y =
          map2 (\<lambda>a b. Some (ln (a + 1 / 1000) - ln (b + 1 / 1000))) x y)"
proof -
  assume i: "\<forall>x \<in> set (flatten input). 0 \<le> x" and t: "\<forall>x \<in> set (flatten target). 0 \<le> x"
  let ?g = "GradientLoss_init vm lw md nm"
  let ?s = "snd (forward_calls (SigLoss_init vm' lw' md' wu N nm') cs)"
  have ge: "gl_eps ?g = 1 / 1000" by (simp add: GradientLoss_init_def)
  have se: "sl_eps ?s = 1 / 1000"
    using forward_calls_fixed [of "SigLoss_init vm' lw' md' wu N nm'" cs]
    by (simp add: SigLoss_init_def)
  have sc: "(\<forall>x \<in> set (flatten (downscale k q)). 0 < x + 1 / 1000) \<and>
      tmap (\<lambda>x. torch_log (x + 1 / 1000)) (downscale k q) =
      tmap (\<lambda>x. Some (ln (x + 1 / 1000))) (downscale k q)"
    if "\<forall>x \<in> set (flatten q). 0 \<le> x" for q :: "real tensor" and k
  proof (rule log_tensor_defined)
    show "\<forall>x \<in> set (flatten (downscale k q)). 0 \<le> x"
      using that by (auto dest: downscale_elems)
  qed
  define Q where "Q = (\<lambda>(i::real tensor) (t::real tensor).
      (\<forall>x \<in> set (flatten i). 0 < x + 1 / 1000) \<and> (\<forall>x \<in> set (flatten t). 0 < x + 1 / 1000) \<and>
      input_log ?g i = tmap (\<lambda>x. Some (ln (x + 1 / 1000))) i \<and>
      target_log ?g t = tmap (\<lambda>x. Some (ln (x + 1 / 1000))) t)"
  have q0: "Q input target"
    unfolding Q_def input_log_def target_log_def ge
    using log_tensor_defined [OF i] log_tensor_defined [OF t] by (intro conjI) blast+
  have qk: "Q (downscale k input) (downscale k target)" for k
    unfolding Q_def input_log_def target_log_def ge
    using sc [OF i, of k] sc [OF t, of k] by (intro conjI) blast+
  have "\<forall>(i, t) \<in> set (zip (downscaled input) (downscaled target)). Q i t"
    unfolding downscaled_eq using q0 qk by simp
  then have a: "\<forall>(i, t) \<in> set (zip (downscaled input) (downscaled target)).
      (\<forall>x \<in> set (flatten i). 0 < x + 1 / 1000) \<and> (\<forall>x \<in> set (flatten t). 0 < x + 1 / 1000) \<and>
      input_log ?g i = tmap (\<lambda>x. Some (ln (x + 1 / 1000))) i \<and>
      target_log ?g t = tmap (\<lambda>x. Some (ln (x + 1 / 1000))) t"
    unfolding Q_def .
  obtain x y where xy: "sl_select ?s input target = (x, y)"
    by (cases "sl_select ?s input target")
  have sx: "set x \<subseteq> set (flatten input)" and sy: "set y \<subseteq> set (flatten target)"
    using sl_select_elems [OF xy] by simp_all
  have px: "\<forall>a \<in> set x. 0 < a + 1 / 1000"
  proof
    fix a assume "a \<in> set x"
    with sx have "a \<in> set (flatten input)" by (rule subsetD)
    with i have "0 \<le> a" by (rule bspec)
    then show "0 < a + 1 / 1000" by simp
  qed
  have py: "\<forall>b \<in> set y. 0 < b + 1 / 1000"
  proof
    fix b assume "b \<in> set y"
    with sy have "b \<in> set (flatten target)" by (rule subsetD)
    with t have "0 \<le> b" by (rule bspec)
    then show "0 < b + 1 / 1000" by simp
  qed
  have "sl_g ?s x y = map2 (\<lambda>a b. Some (ln (a + 1 / 1000) - ln (b + 1 / 1000))) x y"
    using sl_g_defined [of x ?s y] px py unfolding se by simp
  with px py have b: "case sl_select ?s input target of
      (x, y) \<Rightarrow>
        (\<forall>a \<in> set x. 0 < a + 1 / 1000) \<and> (\<forall>b \<in> set y. 0 < b + 1 / 1000) \<and>
        sl_g ?s x y = map2 (\<lambda>a b. Some (ln (a + 1 / 1000) - ln (b + 1 / 1000))) x y"
    unfolding xy by simp
  from ge a se b show ?thesis by (intro conjI)
qed

theorem log_arguments_positive_witness:
  "set (flatten [[[[0, 1::real]]]]) \<subseteq> {x. 0 \<le> x} \<and>
   set (flatten [[[[0, 2::real]]]]) \<subseteq> {x. 0 \<le> x} \<and>
   input_log (GradientLoss_init True 1 None ''loss_grad'') [[[[0, 1]]]] =
     [[[[Some (ln (1 / 1000)), Some (ln (1001 / 1000))]]]] \<and>
   target_log (GradientLoss_init True 1 None ''loss_grad'') [[[[0, 2]]]] =
     [[[[Some (ln (1 / 1000)), Some (ln (2001 / 1000))]]]]"
proof -
  let ?P = "[[[[0, 1::real]]]]" and ?T = "[[[[0, 2::real]]]]"
  have p: "\<forall>x \<in> set (flatten ?P). 0 \<le> x" by (simp add: flatten_def)
  have t: "\<forall>x \<in> set (flatten ?T). 0 \<le> x" by (simp add: flatten_def)
  have m: "(?P, ?T) \<in> set (zip (downscaled ?P) (downscaled ?T))"
    by (simp add: downscaled_def)
  note L = log_arguments_positive [OF p t, of True 1 None "''loss_grad''" True 1 None False 100
      "''sigloss''" "[]"]
  from L [THEN conjunct2, THEN conjunct1, THEN bspec, OF m]
  have "input_log (GradientLoss_init True 1 None ''loss_grad'') ?P =
      tmap (\<lambda>x. Some (ln (x + 1 / 1000))) ?P"
    "target_log (GradientLoss_init True 1 None ''loss_grad'') ?T =
      tmap (\<lambda>x. Some (ln (x + 1 / 1000))) ?T"
    by simp_all
  then have "input_log (GradientLoss_init True 1 None ''loss_grad'') ?P =
     [[[[Some (ln (1 / 1000)), Some (ln (1001 / 1000))]]]]"
    "target_log (GradientLoss_init True 1 None ''loss_grad'') ?T =
     [[[[Some (ln (1 / 1000)), Some (ln (2001 / 1000))]]]]"
    by (simp_all add: tmap_def)
  moreover have "set (flatten ?P) \<subseteq> {x. 0 \<le> x}" "set (flatten ?T) \<subseteq> {x. 0 \<le> x}"
    using p t by blast+
  ultimately show ?thesis by (intro conjI)
qed

section \<open>Equal and valid inputs\<close>

lemma map2_same: "map2 f xs xs = map (\<lambda>x. f x x) xs"
  by (induction xs) auto

lemma tmap2_same: "tmap2 f t t = tmap (\<lambda>x. f x x) t"
  by (simp add: tmap2_def tmap_def map2_same)

lemma map_slice_0_m2_elems: "x \<in> set (flatten (map slice_0_m2 t)) \<Longrightarrow> x \<in> set (flatten t)"
  unfolding in_flatten slice_0_m2_def by (auto dest: in_set_takeD)

lemma map_slice_2_elems: "x \<in> set (flatten (map slice_2 t)) \<Longrightarrow> x \<in> set (flatten t)"
  unfolding in_flatten slice_2_def by (auto dest: in_set_dropD)

lemma vsum_zero: "(\<forall>z \<in> set zs. z = Some 0) \<Longrightarrow> vsum zs = Some 0"
  by (induction zs) (auto simp add: vadd_def)

lemma log_d_diff_zero:
  assumes "\<forall>x \<in> set (flatten t). 0 < x + gl_eps self"
  shows "\<forall>z \<in> set (flatten (log_d_diff self t t)). z = Some 0"
proof
  fix z assume "z \<in> set (flatten (log_d_diff self t t))"
  then obtain d m where
    d: "d \<in> set (flatten (tmap2 vsub (input_log self t) (target_log self t)))" and
    z: "z = vmul d (Some m)"
    unfolding log_d_diff_def by (blast dest: tmap2_elems)
  have "tmap2 vsub (input_log self t) (target_log self t) =
      tmap (\<lambda>l. vsub l l) (tmap (\<lambda>x. torch_log (x + gl_eps self)) t)"
    by (simp add: input_log_def target_log_def tmap2_same)
  with d obtain x where x: "x \<in> set (flatten t)"
    "d = vsub (torch_log (x + gl_eps self)) (torch_log (x + gl_eps self))"
    by (auto simp add: flatten_tmap)
  from x(1) assms have "0 < x + gl_eps self" by blast
  with x(2) have "d = Some 0" by (simp add: torch_log_pos vsub_def)
  with z show "z = Some 0" by (simp add: vmul_def)
qed

lemma gradient_elems_zero:
  assumes a: "\<And>x. x \<in> set (flatten a) \<Longrightarrow> x = Some 0"
    and b: "\<And>x. x \<in> set (flatten b) \<Longrightarrow> x = Some 0"
  shows "\<forall>z \<in> set (flatten (tmap2 (\<lambda>x m. vmul x (Some m)) (tmap torch_abs (tmap2 vsub a b)) vm)).
           z = Some 0"
proof
  fix z assume "z \<in> set (flatten (tmap2 (\<lambda>x m. vmul x (Some m)) (tmap torch_abs (tmap2 vsub a b)) vm))"
  then obtain x m where x: "x \<in> set (flatten (tmap torch_abs (tmap2 vsub a b)))"
    and z: "z = vmul x (Some m)"
    by (blast dest: tmap2_elems)
  from x obtain y where y: "y \<in> set (flatten (tmap2 vsub a b))" and xy: "x = torch_abs y"
    by (auto simp add: flatten_tmap)
  from y obtain p q where pq: "p \<in> set (flatten a)" "q \<in> set (flatten b)" "y = vsub p q"
    by (blast dest: tmap2_elems)
  from pq(1) have "p = Some 0" by (rule a)
  moreover from pq(2) have "q = Some 0" by (rule b)
  ultimately have "y = Some 0" using pq(3) by (simp add: vsub_def)
  with xy z show "z = Some 0" by (simp add: torch_abs_def vmul_def)
qed

lemma gradients_zero:
  assumes "\<forall>z \<in> set (flatten (log_d_diff self i t)). z = Some 0"
  shows "torch_sum (v_gradient self i t) = Some 0" "torch_sum (h_gradient self i t) = Some 0"
proof -
  let ?d = "log_d_diff self i t"
  have d: "x = Some 0" if "x \<in> set (flatten ?d)" for x
    using assms that by (rule bspec)
  have v0: "x = Some 0" if "x \<in> set (flatten (slice_0_m2 ?d))" for x
    by (rule d, rule slice_0_m2_elems, fact that)
  have v2: "x = Some 0" if "x \<in> set (flatten (slice_2 ?d))" for x
    by (rule d, rule slice_2_elems, fact that)
  have h0: "x = Some 0" if "x \<in> set (flatten (map slice_0_m2 ?d))" for x
    by (rule d, rule map_slice_0_m2_elems, fact that)
  have h2: "x = Some 0" if "x \<in> set (flatten (map slice_2 ?d))" for x
    by (rule d, rule map_slice_2_elems, fact that)
  show "torch_sum (v_gradient self i t) = Some 0"
    unfolding torch_sum_def v_gradient_def Let_def
    by (rule vsum_zero, rule gradient_elems_zero) (fact v0, fact v2)
  show "torch_sum (h_gradient self i t) = Some 0"
    unfolding torch_sum_def h_gradient_def Let_def
    by (rule vsum_zero, rule gradient_elems_zero) (fact h0, fact h2)
qed

lemma scale_loss_zero:
  assumes t: "is_tensor4 B C H W t" and pos: "0 < B" "0 < C" "0 < H" "0 < W"
    and valid: "\<forall>x \<in> set (flatten t). valid_elem md x"
  shows "scale_loss (GradientLoss_init vm lw md nm) t t = Some 0"
proof -
  let ?g = "GradientLoss_init vm lw md nm"
  have flds: "gl_eps ?g = 1 / 1000" "gl_max_depth ?g = md" "gl_valid_mask ?g = vm"
    by (simp_all add: GradientLoss_init_def)
  have gt: "0 < x" if "x \<in> set (flatten t)" for x
    using that valid by (auto simp add: valid_elem_def split: option.splits)
  have "\<forall>x \<in> set (flatten t). 0 < x + gl_eps ?g"
    using gt by (simp add: flds add_pos_pos)
  then have z: "\<forall>z \<in> set (flatten (log_d_diff ?g t t)). z = Some 0"
    by (rule log_d_diff_zero)
  have n: "length (flatten t) = B * C * H * W" using t by (rule is_tensor4_numel)
  have "filter (valid_elem md) (flatten t) = flatten t"
    using valid by simp
  then have "gl_N ?g t t = real (B * C * H * W)"
    by (simp add: gl_N_count GradientLoss_init_def numel_def n)
  moreover have "0 < B * C * H * W" using pos by simp
  ultimately have "gl_N ?g t t \<noteq> 0" by simp
  then show ?thesis
    by (simp add: scale_loss_def gradients_zero [OF z] vadd_def vdiv_def)
qed

lemma index_mask_all:
  "\<forall>x \<in> set (flatten t). P x \<Longrightarrow> index_mask t (tmap P t) = flatten t"
  by (simp add: index_mask_def flatten_tmap index_mask_self)

lemma sl_select_all_valid:
  "\<forall>x \<in> set (flatten t). valid_elem (sl_max_depth self) x \<Longrightarrow>
   sl_select self t t = (flatten t, flatten t)"
  by (simp add: sl_select_def Let_def index_mask_all)

lemma sl_g_zero:
  assumes "\<forall>a \<in> set x. 0 < a + sl_eps self"
  shows "sl_g self x x = replicate (length x) (Some 0)"
proof -
  have "sl_g self x x = map (\<lambda>a. Some 0) x"
    unfolding sl_g_def map2_same
    using assms by (intro map_cong) (simp_all add: torch_log_pos vsub_def)
  then show ?thesis by (simp add: map_replicate_const)
qed

lemma vsum_replicate_zero: "vsum (replicate n (Some 0)) = Some 0"
  by (induction n) (simp_all add: vadd_def)

lemma torch_mean_zero: "0 < n \<Longrightarrow> torch_mean (replicate n (Some 0)) = Some 0"
  by (simp add: torch_mean_def vsum_replicate_zero vdiv_def)

lemma torch_var_zero: "2 \<le> n \<Longrightarrow> torch_var (replicate n (Some 0)) = Some 0"
  by (simp add: torch_var_def torch_mean_zero vsub_def torch_pow2_def vsum_replicate_zero vdiv_def)

text \<open>
  Claim C7. For a prediction equal to the target, on a tensor with at least one element
  all of whose elements are valid: GradientLoss returns exactly 0, and SigLoss outside
  the warm-up branch returns exactly 0 when there are at least two elements.
\<close>

theorem equal_valid_inputs_zero:
  "is_tensor4 B C H W target \<Longrightarrow> 0 < B \<Longrightarrow> 0 < C \<Longrightarrow> 0 < H \<Longrightarrow> 0 < W \<Longrightarrow>
   \<forall>x \<in> set (flatten target). valid_elem md x \<Longrightarrow>
   \<forall>x \<in> set (flatten target). valid_elem md' x \<Longrightarrow>
   GradientLoss_forward (GradientLoss_init vm lw md nm) target target = Some 0 \<and>
   (2 \<le> B * C * H * W \<longrightarrow>
    \<not> (warm_up (snd (forward_calls (SigLoss_init vm' lw' md' wu N nm') cs)) \<and>
       warm_up_counter (snd (forward_calls (SigLoss_init vm' lw' md' wu N nm') cs))
         < warm_iter (snd (forward_calls (SigLoss_init vm' lw' md' wu N nm') cs))) \<longrightarrow>
    fst (SigLoss_forward (snd (forward_calls (SigLoss_init vm' lw' md' wu N nm') cs)) target target)
      = Some 0)"
proof -
  assume t: "is_tensor4 B C H W target" and pos: "0 < B" "0 < C" "0 < H" "0 < W"
    and valid: "\<forall>x \<in> set (flatten target). valid_elem md x"
    and valid': "\<forall>x \<in> set (flatten target). valid_elem md' x"
  let ?g = "GradientLoss_init vm lw md nm"
  let ?s = "snd (forward_calls (SigLoss_init vm' lw' md' wu N nm') cs)"
  have s0: "scale_loss ?g target target = Some 0"
    using t pos valid by (rule scale_loss_zero)
  have sk: "scale_loss ?g (downscale k target) (downscale k target) = Some 0" if k: "0 < k" for k
  proof (rule scale_loss_zero)
    show "is_tensor4 B C ((H + k - 1) div k) ((W + k - 1) div k) (downscale k target)"
      using t k by (rule downscale_tensor)
    show "0 < (H + k - 1) div k" "0 < (W + k - 1) div k"
      using pos k by (simp_all add: div_greater_zero_iff)
    show "\<forall>x \<in> set (flatten (downscale k target)). valid_elem md x"
      using valid by (auto dest: downscale_elems)
  qed (fact pos)+
  have a: "GradientLoss_forward ?g target target = Some 0"
    by (simp add: GradientLoss_forward_def gradientloss_unfold s0 sk vadd_def vmul_def)
  have b: "fst (SigLoss_forward ?s target target) = Some 0"
    if n: "2 \<le> B * C * H * W"
      and w: "\<not> (warm_up ?s \<and> warm_up_counter ?s < warm_iter ?s)"
  proof -
    have fx: "sl_eps ?s = 1 / 1000" "sl_max_depth ?s = md'"
      using forward_calls_fixed [of "SigLoss_init vm' lw' md' wu N nm'" cs]
      by (simp_all add: SigLoss_init_def)
    have len: "length (flatten target) = B * C * H * W" using t by (rule is_tensor4_numel)
    have sel: "sl_select ?s target target = (flatten target, flatten target)"
      using valid' by (intro sl_select_all_valid) (simp add: fx)
    have "\<forall>a \<in> set (flatten target). 0 < a + sl_eps ?s"
      using valid' by (auto simp add: fx valid_elem_def add_pos_pos split: option.splits)
    then have g: "sl_g ?s (flatten target) (flatten target) = replicate (B * C * H * W) (Some 0)"
      using sl_g_zero [of "flatten target" ?s] len by simp
    have m: "torch_mean (replicate (B * C * H * W) (Some 0)) = Some 0"
      using n by (intro torch_mean_zero) linarith
    have v: "torch_var (replicate (B * C * H * W) (Some 0)) = Some 0"
      using n by (rule torch_var_zero)
    show ?thesis
      unfolding SigLoss_forward_result sel prod.case g m v
      using w by (simp add: vmul_def vadd_def torch_pow2_def torch_sqrt_def)
  qed
  from a b show ?thesis by blast
qed

theorem equal_valid_inputs_zero_witness:
  "is_tensor4 1 1 1 2 [[[[1, 2::real]]]] \<and>
   set (flatten [[[[1, 2::real]]]]) \<subseteq> {x. valid_elem None x} \<and>
   GradientLoss_forward (GradientLoss_init True 1 None ''loss_grad'') [[[[1, 2]]]] [[[[1, 2]]]] = Some 0 \<and>
   fst (SigLoss_forward (SigLoss_init True 1 None False 100 ''sigloss'') [[[[1, 2]]]] [[[[1, 2]]]])
     = Some 0"
proof -
  let ?T = "[[[[1, 2::real]]]]"
  let ?s = "SigLoss_init True 1 None False 100 ''sigloss''"
  have t: "is_tensor4 1 1 1 2 ?T" by (simp add: is_tensor4_def)
  have v: "\<forall>x \<in> set (flatten ?T). valid_elem None x"
    by (simp add: flatten_def valid_elem_def)
  note E = equal_valid_inputs_zero [OF t _ _ _ _ v v, of True 1 "''loss_grad''" True 1 False 100
      "''sigloss''" "[]"]
  have E': "GradientLoss_forward (GradientLoss_init True 1 None ''loss_grad'') ?T ?T = Some 0 \<and>
    ((2::nat) \<le> 1 * 1 * 1 * 2 \<longrightarrow>
     \<not> (warm_up (snd (forward_calls ?s [])) \<and>
        warm_up_counter (snd (forward_calls ?s [])) < warm_iter (snd (forward_calls ?s []))) \<longrightarrow>
     fst (SigLoss_forward (snd (forward_calls ?s [])) ?T ?T) = Some 0)"
    by (rule E) simp_all
  have w: "\<not> warm_up ?s" by (simp add: SigLoss_init_def)
  from E' w have "fst (SigLoss_forward ?s ?T ?T) = Some 0" by simp
  moreover have "set (flatten ?T) \<subseteq> {x. valid_elem None x}" using v by blast
  ultimately show ?thesis using t E' by (intro conjI) simp_all
qed

section \<open>The axes of the gradients on a depth map\<close>

lemma scale_loss_small:
  assumes "is_tensor4 B C H W i" "is_tensor4 B C H W t" "B \<le> 2" "C \<le> 2"
  shows "scale_loss self i t = (if gl_N self i t = 0 then None else Some 0)"
  using v_gradient_empty [OF assms(1,2,3), of self] h_gradient_empty [OF assms(1,2,4), of self]
  by (simp add: scale_loss_def torch_sum_def vadd_def vdiv_def) (simp add: flatten_def)

lemma ex_tensors:
  "is_tensor4 1 1 3 3 [[[[999 / 1000, 999 / 1000, 999 / 1000],
                         [999 / 1000, 999 / 1000, 999 / 1000],
                         [1999 / 1000, 999 / 1000, 999 / 1000::real]]]]"
  "is_tensor4 1 1 3 3 [[[[999 / 1000, 999 / 1000, 999 / 1000],
                         [999 / 1000, 999 / 1000, 999 / 1000],
                         [999 / 1000, 999 / 1000, 999 / 1000::real]]]]"
  by (simp_all add: is_tensor4_def)


lemma d2: "downscale 2 [[[[a, b, c], [d, e, f], [g, h, i]]]] = [[[[a, c], [g, i]]]]"
  by (simp add: downscale_def)
lemma d4: "downscale 4 [[[[a, b, c], [d, e, f], [g, h, i]]]] = [[[[a]]]]"
  by (simp add: downscale_def)
lemma d6: "downscale 6 [[[[a, b, c], [d, e, f], [g, h, i]]]] = [[[[a]]]]"
  by (simp add: downscale_def)

lemma ex_spec_v:
  "torch_sum (spec_v_gradient (GradientLoss_init True 1 None ''loss_grad'')
      [[[[999 / 1000, 999 / 1000, 999 / 1000],
         [999 / 1000, 999 / 1000, 999 / 1000],
         [1999 / 1000, 999 / 1000, 999 / 1000]]]]
      [[[[999 / 1000, 999 / 1000, 999 / 1000],
         [999 / 1000, 999 / 1000, 999 / 1000],
         [999 / 1000, 999 / 1000, 999 / 1000]]]]) = Some (ln 2)"
  by (simp add: spec_v_gradient_def Let_def log_d_diff_def input_log_def target_log_def gl_mask_def
      tmap_def tmap2_def slice_0_m2_def slice_2_def torch_log_def vsub_def vmul_def torch_abs_def
      torch_sum_def flatten_def vadd_def valid_elem_def GradientLoss_init_def)

lemma ex_spec_h:
  "torch_sum (spec_h_gradient (GradientLoss_init True 1 None ''loss_grad'')
      [[[[999 / 1000, 999 / 1000, 999 / 1000],
         [999 / 1000, 999 / 1000, 999 / 1000],
         [1999 / 1000, 999 / 1000, 999 / 1000]]]]
      [[[[999 / 1000, 999 / 1000, 999 / 1000],
         [999 / 1000, 999 / 1000, 999 / 1000],
         [999 / 1000, 999 / 1000, 999 / 1000]]]]) = Some (ln 2)"
  by (simp add: spec_h_gradient_def Let_def log_d_diff_def input_log_def target_log_def gl_mask_def
      tmap_def tmap2_def slice_0_m2_def slice_2_def torch_log_def vsub_def vmul_def torch_abs_def
      torch_sum_def flatten_def vadd_def valid_elem_def GradientLoss_init_def)

lemma ex_forward:
  "GradientLoss_forward (GradientLoss_init True 1 None ''loss_grad'')
      [[[[999 / 1000, 999 / 1000, 999 / 1000],
         [999 / 1000, 999 / 1000, 999 / 1000],
         [1999 / 1000, 999 / 1000, 999 / 1000]]]]
      [[[[999 / 1000, 999 / 1000, 999 / 1000],
         [999 / 1000, 999 / 1000, 999 / 1000],
         [999 / 1000, 999 / 1000, 999 / 1000]]]] = Some 0"
proof -
  let ?g = "GradientLoss_init True 1 None ''loss_grad''"
  let ?P = "[[[[999 / 1000, 999 / 1000, 999 / 1000],
         [999 / 1000, 999 / 1000, 999 / 1000],
         [1999 / 1000, 999 / 1000, 999 / 1000::real]]]]"
  let ?T = "[[[[999 / 1000, 999 / 1000, 999 / 1000],
         [999 / 1000, 999 / 1000, 999 / 1000],
         [999 / 1000, 999 / 1000, 999 / 1000::real]]]]"
  note p = ex_tensors(1) and t = ex_tensors(2)
  have n0: "gl_N ?g ?P ?T = 9"
    by (simp add: gl_N_count GradientLoss_init_def flatten_def valid_elem_def)
  have n2: "gl_N ?g (downscale 2 ?P) (downscale 2 ?T) = 4"
    by (simp add: gl_N_count GradientLoss_init_def d2 flatten_def valid_elem_def)
  have n4: "gl_N ?g (downscale 4 ?P) (downscale 4 ?T) = 1"
    by (simp add: gl_N_count GradientLoss_init_def d4 flatten_def valid_elem_def)
  have n6: "gl_N ?g (downscale 6 ?P) (downscale 6 ?T) = 1"
    by (simp add: gl_N_count GradientLoss_init_def d6 flatten_def valid_elem_def)
  have s0: "scale_loss ?g ?P ?T = Some 0"
    using scale_loss_small [OF p t, of ?g] n0 by simp
  have sk: "scale_loss ?g (downscale k ?P) (downscale k ?T) =
      (if gl_N ?g (downscale k ?P) (downscale k ?T) = 0 then None else Some 0)" if "0 < k" for k
    by (rule scale_loss_small [OF downscale_tensor [OF p that] downscale_tensor [OF t that]]) simp_all
  have s2: "scale_loss ?g (downscale 2 ?P) (downscale 2 ?T) = Some 0"
    using sk [of 2] n2 by simp
  have s4: "scale_loss ?g (downscale 4 ?P) (downscale 4 ?T) = Some 0"
    using sk [of 4] n4 by simp
  have s6: "scale_loss ?g (downscale 6 ?P) (downscale 6 ?T) = Some 0"
    using sk [of 6] n6 by simp
  show ?thesis
    unfolding GradientLoss_forward_def gradientloss_unfold s0 s2 s4 s6
    by (simp add: vadd_def vmul_def)
qed

text \<open>
  Claim C1. The claim reads the vertical gradient as differences of rows two apart along
  the height axis, and the horizontal one as differences of columns two apart along the
  width axis. On a prediction and a target of shape \<open>(1, 1, 3, 3)\<close> whose
  log-differences are 0 except \<open>ln 2\<close> at row 2, column 0, those gradients sum to
  \<open>ln 2\<close> each. The code slices the batch and the channel axes instead: both of its
  gradients are empty there, and the loss is 0.
\<close>

theorem gradient_axes_divergence:
  "v_gradient (GradientLoss_init True 1 None ''loss_grad'')
      [[[[999 / 1000, 999 / 1000, 999 / 1000],
         [999 / 1000, 999 / 1000, 999 / 1000],
         [1999 / 1000, 999 / 1000, 999 / 1000]]]]
      [[[[999 / 1000, 999 / 1000, 999 / 1000],
         [999 / 1000, 999 / 1000, 999 / 1000],
         [999 / 1000, 999 / 1000, 999 / 1000]]]] = [] \<and>
   flatten (h_gradient (GradientLoss_init True 1 None ''loss_grad'')
      [[[[999 / 1000, 999 / 1000, 999 / 1000],
         [999 / 1000, 999 / 1000, 999 / 1000],
         [1999 / 1000, 999 / 1000, 999 / 1000]]]]
      [[[[999 / 1000, 999 / 1000, 999 / 1000],
         [999 / 1000, 999 / 1000, 999 / 1000],
         [999 / 1000, 999 / 1000, 999 / 1000]]]]) = [] \<and>
   GradientLoss_forward (GradientLoss_init True 1 None ''loss_grad'')
      [[[[999 / 1000, 999 / 1000, 999 / 1000],
         [999 / 1000, 999 / 1000, 999 / 1000],
         [1999 / 1000, 999 / 1000, 999 / 1000]]]]
      [[[[999 / 1000, 999 / 1000, 999 / 1000],
         [999 / 1000, 999 / 1000, 999 / 1000],
         [999 / 1000, 999 / 1000, 999 / 1000]]]] = Some 0 \<and>
   torch_sum (spec_v_gradient (GradientLoss_init True 1 None ''loss_grad'')
      [[[[999 / 1000, 999 / 1000, 999 / 1000],
         [999 / 1000, 999 / 1000, 999 / 1000],
         [1999 / 1000, 999 / 1000, 999 / 1000]]]]
      [[[[999 / 1000, 999 / 1000, 999 / 1000],
         [999 / 1000, 999 / 1000, 999 / 1000],
         [999 / 1000, 999 / 1000, 999 / 1000]]]]) = Some (ln 2) \<and>
   torch_sum (spec_h_gradient (GradientLoss_init True 1 None ''loss_grad'')
      [[[[999 / 1000, 999 / 1000, 999 / 1000],
         [999 / 1000, 999 / 1000, 999 / 1000],
         [1999 / 1000, 999 / 1000, 999 / 1000]]]]
      [[[[999 / 1000, 999 / 1000, 999 / 1000],
         [999 / 1000, 999 / 1000, 999 / 1000],
         [999 / 1000, 999 / 1000, 999 / 1000]]]]) = Some (ln 2) \<and>
   0 < ln (2::real)"
  using v_gradient_empty [OF ex_tensors, of "GradientLoss_init True 1 None ''loss_grad''"]
    h_gradient_empty [OF ex_tensors, of "GradientLoss_init True 1 None ''loss_grad''"]
    ex_forward ex_spec_v ex_spec_h
  by simp

section \<open>Cosine_MSE on equal inputs\<close>

lemma zip_same: "zip xs xs = map (\<lambda>x. (x, x)) xs"
  by (induction xs) auto

lemma torch_MSELoss_same: "concat a \<noteq> [] \<Longrightarrow> torch_MSELoss a a = Some 0"
proof -
  assume ne: "concat a \<noteq> []"
  have "map (\<lambda>(x, y). Some ((x - y) ^ 2)) (zip (concat a) (concat a)) =
      replicate (length (concat a)) (Some (0::real))"
    by (simp add: zip_same map_replicate_const comp_def)
  with ne show ?thesis
    by (simp add: torch_MSELoss_def torch_mean_zero)
qed

lemma sum_squares_nonneg: "0 \<le> sum_list (map2 (*) a a)" for a :: "real list"
  by (induction a) auto

lemma sum_squares_pos:
  "\<exists>x \<in> set a. x \<noteq> 0 \<Longrightarrow> 0 < sum_list (map2 (*) a a)" for a :: "real list"
proof (induction a)
  case Nil
  then show ?case by simp
next
  case (Cons x a)
  show ?case
  proof (cases "x = 0")
    case True
    with Cons show ?thesis by auto
  next
    case False
    then have "0 < x * x" by (auto simp add: zero_less_mult_iff)
    with sum_squares_nonneg [of a] show ?thesis by simp
  qed
qed

lemma cosine_similarity_same:
  assumes "\<exists>x \<in> set a. x \<noteq> 0"
  shows "cosine_similarity a a = Some 1"
proof -
  have "0 < sum_list (map2 (*) a a)" using assms by (rule sum_squares_pos)
  then show ?thesis by (simp add: cosine_similarity_def vdiv_def)
qed

lemma cosine_loss_same:
  assumes "rows \<noteq> []" "\<forall>row \<in> set rows. \<exists>x \<in> set row. x \<noteq> 0"
  shows "torch_CosineEmbeddingLoss rows rows (map (\<lambda>row. 1) rows) = Some 0"
proof -
  have z: "zip (zip rows rows) (map (\<lambda>row. 1::real) rows) = map (\<lambda>r. ((r, r), 1)) rows"
    by (induction rows) auto
  have "map (\<lambda>((a, b), l).
        if l = 1 then vsub (Some 1) (cosine_similarity a b)
        else (case cosine_similarity a b of None \<Rightarrow> None | Some c \<Rightarrow> Some (max 0 c)))
        (map (\<lambda>r. ((r, r), 1::real)) rows) = map (\<lambda>r. Some 0) rows"
    using assms(2) by (auto simp add: cosine_similarity_same vsub_def)
  then show ?thesis
    unfolding torch_CosineEmbeddingLoss_def z
    using assms(1) by (simp add: map_replicate_const torch_mean_zero)
qed

lemma min_max_normalize_rows:
  "min_max_normalize P (map f rows) (map g rows) =
     map2 (\<lambda>p row. map (\<lambda>x. (x - f row) / (g row - f row + 1 / 10 ^ 6)) p) P rows"
proof -
  have "zip P (zip (map f rows) (map g rows)) = map (\<lambda>(p, row). (p, f row, g row)) (zip P rows)"
    by (induction P arbitrary: rows) (auto simp add: zip_Cons1 split: list.splits)
  then show ?thesis by (simp add: min_max_normalize_def comp_def case_prod_unfold)
qed

lemma normalize_same_nonempty:
  assumes "row \<in> set rows" "row \<noteq> []"
  shows "concat (map2 (\<lambda>p row. map (h row) p) rows rows) \<noteq> []"
  using assms by (auto simp add: zip_same)

lemma rearrange_nonempty:
  assumes t: "is_tensor4 B C H W t" and pos: "0 < B" "0 < C" "0 < H" "0 < W"
  shows "rearrange_bchw t \<noteq> []"
proof -
  from t pos(1) obtain bt where bt: "bt \<in> set t"
    by (cases t) (auto simp add: is_tensor4_def)
  with t have lb: "length bt = C" and lc: "\<forall>c \<in> set bt. length c = H"
    and lr: "\<forall>c \<in> set bt. \<forall>r \<in> set c. length r = W"
    by (auto simp add: is_tensor4_def)
  from lb pos(2) obtain ch where ch: "ch \<in> set bt" by (cases bt) auto
  with lc pos(3) have "ch \<noteq> []" by auto
  with ch have ne: "transpose bt \<noteq> []" by (auto simp add: transpose_empty)
  then have i0: "0 < length (transpose bt)" by simp
  have "filter (\<lambda>ys. 0 < length ys) bt = bt"
    using lc pos(3) by (auto simp add: filter_id_conv)
  with nth_transpose [OF i0] have m0: "transpose bt ! 0 = map (\<lambda>xs. xs ! 0) bt" by simp
  have "ch ! 0 \<in> set ch" using \<open>ch \<noteq> []\<close> by simp
  with lr ch pos(4) have "ch ! 0 \<noteq> []" by auto
  moreover have "ch ! 0 \<in> set (transpose bt ! 0)" using ch unfolding m0 by simp
  ultimately have "transpose (transpose bt ! 0) \<noteq> []" by (auto simp add: transpose_empty)
  moreover have "transpose bt ! 0 \<in> set (transpose bt)" using i0 by simp
  ultimately have "concat (map transpose (transpose bt)) \<noteq> []" by auto
  with bt show ?thesis by (auto simp add: rearrange_bchw_def)
qed

text \<open>
  Claim C6. Cosine_MSE reshapes both arrays to one row per (batch, height, width)
  position and normalizes each row of both with the minimum and the maximum of the
  target's row, the denominator guarded by \<open>10\<^sup>-\<^sup>6\<close>. For a prediction equal to a
  target with at least one row, every row of which holds two different values, the
  cosine embedding term and the MSE term are both 0, and so is the loss.
\<close>

theorem cosine_mse_equal_inputs:
  "is_tensor4 B C H W target \<Longrightarrow> 0 < B \<Longrightarrow> 0 < C \<Longrightarrow> 0 < H \<Longrightarrow> 0 < W \<Longrightarrow>
   \<forall>row \<in> set (rearrange_bchw target). \<exists>x \<in> set row. \<exists>y \<in> set row. x \<noteq> y \<Longrightarrow>
   Cosine_MSE_forward Cosine_MSE_init target target = Inr (Some 0) \<and>
   torch_CosineEmbeddingLoss (rearrange_bchw target) (rearrange_bchw target)
     (map (\<lambda>row. 1) (rearrange_bchw target)) = Some 0 \<and>
   (\<forall>pred. Cosine_MSE_forward Cosine_MSE_init pred target =
      Inr (vadd
        (torch_CosineEmbeddingLoss (rearrange_bchw pred) (rearrange_bchw target)
           (map (\<lambda>row. 1) (rearrange_bchw target)))
        (torch_MSELoss
           (map2 (\<lambda>p row. map (\<lambda>x. (x - Min (set row)) / (Max (set row) - Min (set row) + 1 / 10 ^ 6)) p)
              (rearrange_bchw pred) (rearrange_bchw target))
           (map2 (\<lambda>p row. map (\<lambda>x. (x - Min (set row)) / (Max (set row) - Min (set row) + 1 / 10 ^ 6)) p)
              (rearrange_bchw target) (rearrange_bchw target)))))"
proof -
  assume t: "is_tensor4 B C H W target" and pos: "0 < B" "0 < C" "0 < H" "0 < W"
    and nd: "\<forall>row \<in> set (rearrange_bchw target). \<exists>x \<in> set row. \<exists>y \<in> set row. x \<noteq> y"
  let ?rows = "rearrange_bchw target"
  let ?N = "\<lambda>P. map2 (\<lambda>p row. map (\<lambda>x. (x - Min (set row)) / (Max (set row) - Min (set row) + 1 / 10 ^ 6)) p)
              P ?rows"
  have chan: "\<not> (\<exists>bt \<in> set target. bt = [])"
    using t pos(2) by (auto simp add: is_tensor4_def)
  have gen: "Cosine_MSE_forward Cosine_MSE_init pred target =
      Inr (vadd (torch_CosineEmbeddingLoss (rearrange_bchw pred) ?rows (map (\<lambda>row. 1) ?rows))
                (torch_MSELoss (?N (rearrange_bchw pred)) (?N ?rows)))" for pred
    using chan
    by (simp add: Cosine_MSE_forward_def Cosine_MSE_init_def Let_def min_max_normalize_rows)
  have rows: "?rows \<noteq> []" using t pos by (rule rearrange_nonempty)
  have nz: "\<forall>row \<in> set ?rows. \<exists>x \<in> set row. x \<noteq> 0"
  proof
    fix row assume "row \<in> set ?rows"
    with nd obtain x y where "x \<in> set row" "y \<in> set row" "x \<noteq> y" by blast
    then show "\<exists>x \<in> set row. x \<noteq> 0" by (cases "x = 0") auto
  qed
  have c: "torch_CosineEmbeddingLoss ?rows ?rows (map (\<lambda>row. 1) ?rows) = Some 0"
    using rows nz by (rule cosine_loss_same)
  from rows obtain row where row: "row \<in> set ?rows" by (cases ?rows) auto
  with nd have "row \<noteq> []" by auto
  with row have "concat (?N ?rows) \<noteq> []" by (rule normalize_same_nonempty)
  then have m: "torch_MSELoss (?N ?rows) (?N ?rows) = Some 0" by (rule torch_MSELoss_same)
  have "Cosine_MSE_forward Cosine_MSE_init target target = Inr (Some 0)"
    unfolding gen c m by (simp add: vadd_def)
  with c gen show ?thesis by blast
qed

theorem cosine_mse_equal_inputs_witness:
  "is_tensor4 1 2 1 2 [[[[1, 2]], [[3, 4::real]]]] \<and>
   rearrange_bchw [[[[1, 2]], [[3, 4::real]]]] = [[1, 3], [2, 4]] \<and>
   Cosine_MSE_forward Cosine_MSE_init [[[[1, 2]], [[3, 4]]]] [[[[1, 2]], [[3, 4]]]] = Inr (Some 0)"
proof -
  let ?T = "[[[[1, 2]], [[3, 4::real]]]]"
  have t: "is_tensor4 1 2 1 2 ?T" by (simp add: is_tensor4_def)
  have r: "rearrange_bchw ?T = [[1, 3], [2, 4]]" by (simp add: rearrange_bchw_def)
  have nd: "\<forall>row \<in> set (rearrange_bchw ?T). \<exists>x \<in> set row. \<exists>y \<in> set row. x \<noteq> y"
    unfolding r by auto
  have "Cosine_MSE_forward Cosine_MSE_init ?T ?T = Inr (Some 0)"
    by (rule cosine_mse_equal_inputs [OF t _ _ _ _ nd, THEN conjunct1]) simp_all
  with t r show ?thesis by (intro conjI)
qed

end
